theory Spec2Isabelle
  imports Complex_Main "HOL-Library.Word" "HOL-Library.Signed_Division" "HOL-Library.Multiset"
begin

section \<open>Machine integers, durations and floating-point values\<close>

text \<open>
  Go's \<open>int\<close> and \<open>int64\<close> (64-bit two's complement on the supported platforms) are
  \<open>64 word\<close>: \<open>+\<close>, \<open>-\<close> and \<open>*\<close> wrap around, \<open>sint\<close> reads the signed value and
  \<open>\<le>s\<close>, \<open><s\<close> are the signed comparisons Go performs. \<open>time.Duration\<close> and the
  repository's own \<open>Duration\<close> are \<open>int64\<close> counts of nanoseconds.

  The values of Go's \<open>float64\<close> are modelled by real numbers; infinities and NaN are
  outside the model. \<open>round64\<close> below rounds a real number to the nearest binary64 value,
  as every floating-point operation and conversion does. \<open>percentile\<close>, whose result
  depends on that rounding, is modelled with the rounded operations; the stream analyzer's
  statistics and scores and the collector's error rate are modelled over the exact reals,
  where rounding is outside the model. Where the source divides
  floating-point numbers by a value that may be zero, the model has the source's guard, or
  the text at the definition says what the source computes there and how the model differs.
\<close>

type_synonym int64 = "64 word"
type_synonym goint = "64 word"
type_synonym Duration = "64 word"
type_synonym float64 = real

definition Millisecond :: Duration where
  "Millisecond = 1000000"

definition Second :: Duration where
  "Second = 1000000000"

text \<open>Go's integer division truncates towards zero; \<open>sdiv\<close> on \<open>int\<close> does the same.\<close>

definition godiv :: "int64 \<Rightarrow> int64 \<Rightarrow> int64" where
  "godiv a b = word_of_int (sint a sdiv sint b)"

text \<open>\<open>time.Duration.Milliseconds\<close>: \<open>int64(d) / 1e6\<close>.\<close>

definition Milliseconds :: "Duration \<Rightarrow> int64" where
  "Milliseconds d = godiv d 1000000"

text \<open>The conversion \<open>float64(x)\<close> of a signed 64-bit integer.\<close>

definition float64_of :: "int64 \<Rightarrow> float64" where
  "float64_of x = real_of_int (sint x)"

text \<open>
  The conversion of a floating-point value to \<open>int64\<close> (as in \<open>time.Duration(f)\<close> and
  \<open>int(f)\<close>) discards the fraction, rounding towards zero.
\<close>

definition truncate_real :: "real \<Rightarrow> int" where
  "truncate_real x = (if 0 \<le> x then \<lfloor>x\<rfloor> else \<lceil>x\<rceil>)"

definition int64_of_float :: "float64 \<Rightarrow> int64" where
  "int64_of_float x = word_of_int (truncate_real x)"

text \<open>
  Rounding to binary64 (IEEE 754 double precision, the format of \<open>float64\<close>), to the
  nearest value with ties to the even significand. A number whose magnitude lies in the
  binade from 2^e to 2^(e+1) is rounded to a multiple of 2^(e-52) (a significand of 53
  bits); below 2^(-1022) the spacing stays 2^(-1074) (the subnormal numbers). Overflow to
  infinity, which needs a magnitude of 2^1024, is not modelled: the values rounded in
  \<open>percentile\<close> are bounded by the magnitudes of 64-bit integers.
\<close>

definition round_half_even :: "real \<Rightarrow> int" where
  "round_half_even y =
     (let f = \<lfloor>y\<rfloor>
      in if y - real_of_int f < 1 / 2 then f
         else if 1 / 2 < y - real_of_int f then f + 1
         else if even f then f else f + 1)"

definition binade :: "real \<Rightarrow> int" where
  "binade x = max \<lfloor>log 2 \<bar>x\<bar>\<rfloor> (- 1022)"

definition round64 :: "real \<Rightarrow> float64" where
  "round64 x =
     (if x = 0 then 0
      else sgn x * real_of_int (round_half_even (\<bar>x\<bar> / 2 powi (binade x - 52)))
           * 2 powi (binade x - 52))"

text \<open>
  The four arithmetic operations of \<open>float64\<close>: the exact result, rounded. Each operation
  is rounded on its own, as the instructions for amd64 (the architecture the repository's
  builds target) do; the language also allows an implementation to fuse \<open>x*y + z\<close> into
  one operation with a single rounding, which this model does not describe.
\<close>

definition fadd :: "float64 \<Rightarrow> float64 \<Rightarrow> float64" where
  "fadd a b = round64 (a + b)"

definition fsub :: "float64 \<Rightarrow> float64 \<Rightarrow> float64" where
  "fsub a b = round64 (a - b)"

definition fmul :: "float64 \<Rightarrow> float64 \<Rightarrow> float64" where
  "fmul a b = round64 (a * b)"

definition fdiv :: "float64 \<Rightarrow> float64 \<Rightarrow> float64" where
  "fdiv a b = round64 (a / b)"

section \<open>Streaming delivery analyzer\<close>

subsection \<open>Data model\<close>

record ChunkTiming =
  SequenceNumber :: goint
  Size :: goint
  ElapsedTime :: Duration
  Timestamp :: int
  Throughput :: float64

record StallInfo =
  StartTime :: Duration
  EndTime :: Duration
  Duration :: Duration
  Position :: int64

record BufferingAnalysis =
  TimeToFirstByte :: Duration
  FirstChunkGap :: Duration
  ChunkPattern :: string
  StallCount :: goint
  TotalStallTime :: Duration
  ChunkTimingCV :: float64
  BufferingDetected :: bool
  MeanDelay :: float64
  StdDevDelay :: float64
  MinDelay :: float64
  MaxDelay :: float64
  StreamingQuality :: string
  Confidence :: float64

text \<open>
  \<open>StreamMetrics\<close>. The field \<open>Analysis\<close> is the source's pointer field
  \<open>BufferingAnalysis\<close> (\<open>None\<close> is Go's \<open>nil\<close>); it and \<open>Stalls\<close> are filled in by
  the caller after the body is drained. The header analysis \<open>StreamingInfo\<close> is not read
  by any function modelled here and is left out.
\<close>

record StreamMetrics =
  ChunkTimings :: "ChunkTiming list"
  BytesPerSecond :: float64
  FirstChunkTime :: Duration
  LastChunkTime :: Duration
  TotalChunks :: goint
  TotalBytes :: int64
  AverageChunkSize :: int64
  Protocol :: string
  StreamID :: "32 word"
  Analysis :: "BufferingAnalysis option"
  Stalls :: "StallInfo list"

subsection \<open>Stall detection\<close>

text \<open>
  The loop of \<open>DetectStalls\<close>: \<open>for i := 1; i < len(metrics.ChunkTimings); i++\<close> with the
  running \<open>totalBytes\<close> and the slice \<open>stalls\<close> as loop state.
\<close>

function DetectStalls_loop ::
  "ChunkTiming list \<Rightarrow> Duration \<Rightarrow> nat \<Rightarrow> int64 \<Rightarrow> StallInfo list \<Rightarrow> StallInfo list" where
  "DetectStalls_loop cs threshold i totalBytes stalls =
     (if i < length cs then
        (let prev = cs ! (i - 1);
             curr = cs ! i;
             delay = ElapsedTime curr - ElapsedTime prev;
             stalls' = (if threshold <s delay
                        then stalls @ [\<lparr>StartTime = ElapsedTime prev, EndTime = ElapsedTime curr,
                                        Duration = delay, Position = totalBytes\<rparr>]
                        else stalls)
         in DetectStalls_loop cs threshold (i + 1) (totalBytes + Size prev) stalls')
      else stalls)"
  by pat_completeness auto
termination
  by (relation "measure (\<lambda>(cs, threshold, i, totalBytes, stalls). length cs - i)") auto

declare DetectStalls_loop.simps [simp del]

definition DetectStalls :: "StreamMetrics \<Rightarrow> Duration \<Rightarrow> StallInfo list" where
  "DetectStalls metrics threshold =
     (if length (ChunkTimings metrics) < 2 then []
      else DetectStalls_loop (ChunkTimings metrics) threshold 1 0 [])"

subsection \<open>Statistics helpers\<close>

definition calculateMean :: "float64 list \<Rightarrow> float64" where
  "calculateMean values =
     (if length values = 0 then 0
      else foldl (\<lambda>sum v. sum + v) 0 values / real (length values))"

definition calculateStdDev :: "float64 list \<Rightarrow> float64 \<Rightarrow> float64" where
  "calculateStdDev values mean =
     (if length values = 0 then 0
      else sqrt (foldl (\<lambda>variance v. variance + (v - mean) * (v - mean)) 0 values
                 / real (length values)))"

subsection \<open>Pattern classification\<close>

text \<open>
  \<open>detectChunkPattern\<close>. The counting loop is a fold over the delays. With no delays the
  source computes \<open>0/0\<close>, a NaN, which is not greater than \<open>0.3\<close>; the model's
  \<open>0 / 0 = 0\<close> takes the same branch.
\<close>

definition detectChunkPattern :: "float64 \<Rightarrow> float64 list \<Rightarrow> string" where
  "detectChunkPattern cv delays =
     (if cv < 0.3 then ''steady''
      else if cv < 0.7 then ''moderate''
      else
        (let longDelays = foldl (\<lambda>n d. if d > 500 then n + 1 else n) (0::nat) delays;
             stallRatio = real longDelays / real (length delays)
         in if stallRatio > 0.3 then ''stalled'' else ''burst''))"

subsection \<open>Buffering detection\<close>

text \<open>\<open>detectBuffering\<close>: the counter \<open>signals\<close> is threaded through the four tests.\<close>

definition detectBuffering :: "BufferingAnalysis \<Rightarrow> StreamMetrics \<Rightarrow> bool" where
  "detectBuffering analysis metrics =
     (let signals = (0::int);
          signals = (if TotalChunks metrics = 1 then signals + 2 else signals);
          signals = (if Second <s TimeToFirstByte analysis \<and> ChunkPattern analysis = ''burst''
                     then signals + 1 else signals);
          signals = (if Second <s FirstChunkGap analysis then signals + 1 else signals);
          signals = (if ChunkTimingCV analysis < 0.3
                        \<and> 500 * Millisecond <s TimeToFirstByte analysis
                     then signals + 1 else signals)
      in signals \<ge> 2)"

subsection \<open>Confidence score\<close>

definition calculateConfidence :: "BufferingAnalysis \<Rightarrow> StreamMetrics \<Rightarrow> float64" where
  "calculateConfidence analysis metrics =
     (let confidence = (0.5::real);
          confidence = (if 10 \<le>s TotalChunks metrics then confidence + 0.3
                        else if 5 \<le>s TotalChunks metrics then confidence + 0.2
                        else if 2 \<le>s TotalChunks metrics then confidence + 0.1
                        else confidence);
          confidence = (if ChunkPattern analysis = ''steady'' \<or> BufferingDetected analysis
                        then confidence + 0.2 else confidence);
          confidence = (if confidence > 1.0 then 1.0 else confidence)
      in confidence)"

subsection \<open>The analysis pipeline\<close>

text \<open>
  \<open>AnalyzeBuffering\<close>. The \<open>timing\<close> argument of the source is not read by the function
  and is omitted. The delay series is \<open>float64(delay.Milliseconds())\<close> for each consecutive
  pair; the minimum and maximum are found by one pass starting from the first delay.
\<close>

definition interChunkDelays :: "ChunkTiming list \<Rightarrow> float64 list" where
  "interChunkDelays cs =
     map (\<lambda>i. float64_of (Milliseconds (ElapsedTime (cs ! i) - ElapsedTime (cs ! (i - 1)))))
         [1..<length cs]"

definition AnalyzeBuffering :: "StreamMetrics \<Rightarrow> BufferingAnalysis" where
  "AnalyzeBuffering metrics =
     (let analysis = \<lparr>TimeToFirstByte = FirstChunkTime metrics, FirstChunkGap = 0,
                       ChunkPattern = [], StallCount = 0, TotalStallTime = 0,
                       ChunkTimingCV = 0, BufferingDetected = False,
                       MeanDelay = 0, StdDevDelay = 0, MinDelay = -1, MaxDelay = -1,
                       StreamingQuality = [], Confidence = 0\<rparr>
      in if length (ChunkTimings metrics) < 2
         then analysis\<lparr>ChunkPattern := ''insufficient_data''\<rparr>
         else
           (let cs = ChunkTimings metrics;
                analysis = analysis\<lparr>FirstChunkGap := ElapsedTime (cs ! 1) - ElapsedTime (cs ! 0)\<rparr>;
                delays = interChunkDelays cs;
                analysis = analysis\<lparr>MeanDelay := calculateMean delays\<rparr>;
                analysis = analysis\<lparr>StdDevDelay := calculateStdDev delays (MeanDelay analysis)\<rparr>;
                analysis = (if length delays > 0
                            then analysis\<lparr>MinDelay := foldl (\<lambda>m d. if d < m then d else m) (delays ! 0) delays,
                                           MaxDelay := foldl (\<lambda>m d. if d > m then d else m) (delays ! 0) delays\<rparr>
                            else analysis);
                analysis = (if MeanDelay analysis > 0
                            then analysis\<lparr>ChunkTimingCV := StdDevDelay analysis / MeanDelay analysis\<rparr>
                            else analysis);
                analysis = analysis\<lparr>ChunkPattern := detectChunkPattern (ChunkTimingCV analysis) delays\<rparr>;
                analysis = analysis\<lparr>BufferingDetected := detectBuffering analysis metrics\<rparr>;
                analysis = analysis\<lparr>Confidence := calculateConfidence analysis metrics\<rparr>
            in analysis))"

subsection \<open>Chunk capture: the \<open>Read\<close> decorator\<close>

text \<open>
  The wrapped \<open>io.Reader\<close> is an arbitrary object: its state is a value of type \<open>'r\<close> and
  its \<open>Read\<close> method a function that receives the caller's buffer and returns the buffer
  as the call leaves it, the count \<open>n\<close>, the error (\<open>None\<close> is \<open>nil\<close>) and the reader's
  next state. Nothing is assumed about it, not even \<open>0 \<le> n \<le> len(p)\<close>.
  An instant (\<open>time.Time\<close>) is a number of nanoseconds on the clock's axis.
\<close>

type_synonym bytes = "8 word list"
type_synonym 'r reader_fn = "'r \<Rightarrow> bytes \<Rightarrow> bytes \<times> goint \<times> string option \<times> 'r"

record 'r StreamingReader =
  reader :: 'r
  startTime_sr :: int
  lastRead :: int
  metrics :: StreamMetrics
  chunkNumber :: goint
  totalBytes_sr :: int64

text \<open>
  \<open>time.Time.Sub\<close> saturates at the largest and smallest \<open>Duration\<close>;
  \<open>Duration.Seconds\<close> is the duration in seconds as a floating-point number.
\<close>

definition time_Sub :: "int \<Rightarrow> int \<Rightarrow> Duration" where
  "time_Sub t u =
     (let d = t - u
      in if d > 2 ^ 63 - 1 then word_of_int (2 ^ 63 - 1)
         else if d < - (2 ^ 63) then word_of_int (- (2 ^ 63))
         else word_of_int d)"

definition Seconds :: "Duration \<Rightarrow> float64" where
  "Seconds d = real_of_int (sint d) / 1000000000"

definition NewStreamingReader :: "int \<Rightarrow> 'r \<Rightarrow> string \<Rightarrow> 'r StreamingReader" where
  "NewStreamingReader now r protocol =
     \<lparr>reader = r, startTime_sr = now, lastRead = now,
      metrics = \<lparr>ChunkTimings = [], BytesPerSecond = 0, FirstChunkTime = 0, LastChunkTime = 0,
                 TotalChunks = 0, TotalBytes = 0, AverageChunkSize = 0, Protocol = protocol,
                 StreamID = 0, Analysis = None, Stalls = []\<rparr>,
      chunkNumber = 0, totalBytes_sr = 0\<rparr>"

text \<open>
  \<open>StreamingReader.Read\<close>. \<open>rd\<close> is the \<open>Read\<close> method of the wrapped reader and
  \<open>now\<close> the instant \<open>time.Now()\<close> returns if the call consults the clock.
\<close>

definition Read ::
  "'r reader_fn \<Rightarrow> int \<Rightarrow> 'r StreamingReader \<Rightarrow> bytes
     \<Rightarrow> bytes \<times> goint \<times> string option \<times> 'r StreamingReader" where
  "Read rd now sr p =
     (case rd (reader sr) p of (p', n, err, r') \<Rightarrow>
        (let sr = sr\<lparr>reader := r'\<rparr>
         in if 0 <s n then
              (let elapsed = time_Sub now (startTime_sr sr);
                   chunkDuration = Seconds (time_Sub now (lastRead sr));
                   throughput = (if chunkDuration > 0
                                 then (float64_of n * 8) / (chunkDuration * 1000000) else 0);
                   chunk = \<lparr>SequenceNumber = chunkNumber sr, Size = n, ElapsedTime = elapsed,
                            Timestamp = now, Throughput = throughput\<rparr>;
                   m = metrics sr;
                   m = m\<lparr>ChunkTimings := ChunkTimings m @ [chunk]\<rparr>;
                   m = (if chunkNumber sr = 0 then m\<lparr>FirstChunkTime := elapsed\<rparr> else m);
                   sr = sr\<lparr>metrics := m, chunkNumber := chunkNumber sr + 1,
                           totalBytes_sr := totalBytes_sr sr + n, lastRead := now\<rparr>;
                   sr = sr\<lparr>metrics := (metrics sr)\<lparr>LastChunkTime := elapsed\<rparr>\<rparr>
               in (p', n, err, sr))
            else (p', n, err, sr)))"

text \<open>
  Draining a reader, as \<open>io.ReadAll\<close> and \<open>io.Copy\<close> of the standard library do: call
  \<open>Read\<close> with the scratch buffer until it returns an error, keeping the first \<open>n\<close>
  bytes of the buffer after each call. The loop has no bound of its own (a reader may never
  report an error), so the model takes fuel and returns \<open>None\<close> when it runs out.
\<close>

fun drain :: "nat \<Rightarrow> ('s \<Rightarrow> bytes \<Rightarrow> bytes \<times> goint \<times> string option \<times> 's)
               \<Rightarrow> 's \<Rightarrow> bytes \<Rightarrow> bytes \<Rightarrow> (bytes \<times> string) option" where
  "drain 0 rdf s buf acc = None"
| "drain (Suc fuel) rdf s buf acc =
     (case rdf s buf of (buf', n, err, s') \<Rightarrow>
        (let acc' = acc @ take (nat (sint n)) buf'
         in case err of Some e \<Rightarrow> Some (acc', e)
                      | None \<Rightarrow> drain fuel rdf s' buf' acc'))"

text \<open>
  The decorated reader as a reader in its own right: its state is the \<open>StreamingReader\<close>
  together with the number of reads made so far, which selects the clock reading.
\<close>

definition streaming_read ::
  "'r reader_fn \<Rightarrow> (nat \<Rightarrow> int) \<Rightarrow> nat \<times> 'r StreamingReader \<Rightarrow> bytes
     \<Rightarrow> bytes \<times> goint \<times> string option \<times> (nat \<times> 'r StreamingReader)" where
  "streaming_read rd clock st p =
     (case Read rd (clock (fst st)) (snd st) p of
        (p', n, err, sr') \<Rightarrow> (p', n, err, (Suc (fst st), sr')))"

text \<open>
  \<open>StreamingReader.Metrics\<close> completes the metrics record and hands it out; \<open>now\<close> is
  the clock reading of \<open>time.Since\<close>. The model returns the reader, whose \<open>metrics\<close>
  field is the record handed out.
\<close>

definition Metrics :: "int \<Rightarrow> 'r StreamingReader \<Rightarrow> 'r StreamingReader" where
  "Metrics now sr =
     (let m = (metrics sr)\<lparr>TotalChunks := chunkNumber sr, TotalBytes := totalBytes_sr sr\<rparr>;
          m = (if 0 <s chunkNumber sr
               then m\<lparr>AverageChunkSize := godiv (totalBytes_sr sr) (chunkNumber sr)\<rparr> else m);
          totalDuration = Seconds (time_Sub now (startTime_sr sr));
          m = (if totalDuration > 0
               then m\<lparr>BytesPerSecond := float64_of (totalBytes_sr sr) / totalDuration\<rparr> else m)
      in sr\<lparr>metrics := m\<rparr>)"

section \<open>Metrics collector\<close>

subsection \<open>Data model\<close>

record TimingBreakdown =
  DNSLookup :: Duration
  TCPConnection :: Duration
  TLSHandshake :: Duration
  ServerProcessing :: Duration
  ContentTransfer :: Duration
  Total :: Duration
  ConnectionReused :: bool
  ConnectionIdle :: bool
  IdleTime :: Duration
  StatusCode :: goint
  ContentLength :: int64
  ResponseSize :: int64
  ResponseHeaders :: "(string \<times> string) list"
  ResponseBody :: string
  TLSVersion :: string
  TLSCipherSuite :: string
  TLSServerName :: string
  Error :: string
  Streaming :: "StreamMetrics option"

text \<open>The collector; the mutex serialises the operations below and has no state of its own.\<close>

record Collector =
  timings :: "TimingBreakdown list"
  startTime :: int
  endTime :: int

text \<open>
  \<open>Stats\<close>. The two rates \<open>RequestsPerSecond\<close> and \<open>BytesPerSecond\<close> divide by the
  length of the window in floating point, which is an infinity or a NaN for an empty window;
  they are outside the model and left out. A \<open>nil\<close> map and an empty map are both the
  empty map.
\<close>

record Stats =
  TotalRequests :: goint
  SuccessfulRequests :: goint
  FailedRequests :: goint
  StatsDuration :: Duration
  MinLatency :: Duration
  MaxLatency :: Duration
  MeanLatency :: Duration
  P50 :: Duration
  P90 :: Duration
  P95 :: Duration
  P99 :: Duration
  P999 :: Duration
  P9999 :: Duration
  StatusCodes :: "goint \<rightharpoonup> goint"
  ErrorRate :: float64
  TotalBytes_stats :: int64
  Histogram :: "goint \<rightharpoonup> goint"

definition zeroStats :: Stats where
  "zeroStats = \<lparr>TotalRequests = 0, SuccessfulRequests = 0, FailedRequests = 0, StatsDuration = 0,
                MinLatency = 0, MaxLatency = 0, MeanLatency = 0, P50 = 0, P90 = 0, P95 = 0,
                P99 = 0, P999 = 0, P9999 = 0, StatusCodes = Map.empty, ErrorRate = 0,
                TotalBytes_stats = 0, Histogram = Map.empty\<rparr>"

subsection \<open>Operations\<close>

definition NewCollector :: "int \<Rightarrow> Collector" where
  "NewCollector now = \<lparr>timings = [], startTime = now, endTime = 0\<rparr>"

definition Record :: "Collector \<Rightarrow> TimingBreakdown \<Rightarrow> Collector" where
  "Record c timing = c\<lparr>timings := timings c @ [timing]\<rparr>"

definition Finalize :: "Collector \<Rightarrow> int \<Rightarrow> Collector" where
  "Finalize c now = c\<lparr>endTime := now\<rparr>"

definition Reset :: "Collector \<Rightarrow> int \<Rightarrow> Collector" where
  "Reset c now = c\<lparr>timings := [], startTime := now\<rparr>"

text \<open>\<open>m[k]++\<close> on a Go map: a missing key reads as zero.\<close>

definition map_incr :: "(goint \<rightharpoonup> goint) \<Rightarrow> goint \<Rightarrow> (goint \<rightharpoonup> goint)" where
  "map_incr m k = m(k \<mapsto> (case m k of None \<Rightarrow> 0 | Some c \<Rightarrow> c) + 1)"

text \<open>
  \<open>percentile\<close>, in \<open>float64\<close> arithmetic: the conversions \<open>float64(len(sorted)-1)\<close>,
  \<open>float64(lower)\<close> and \<open>float64(sorted[i])\<close> round the integer to binary64, and each
  division, multiplication, subtraction and addition rounds its result. \<open>int(index)\<close>
  discards the fraction of the index; the interpolated floating-point value is converted
  back to a \<open>Duration\<close>, again discarding the fraction. The index is never negative where
  it is used as a position, and \<open>upper\<close> is checked against the length.
\<close>

definition percentile :: "Duration list \<Rightarrow> float64 \<Rightarrow> Duration" where
  "percentile sorted_lat p =
     (if length sorted_lat = 0 then 0
      else if p \<le> 0 then sorted_lat ! 0
      else if p \<ge> 100 then sorted_lat ! (length sorted_lat - 1)
      else
        (let index = fmul (fdiv p 100.0) (round64 (real (length sorted_lat - 1)));
             lower = truncate_real index;
             upper = lower + 1
         in if upper \<ge> int (length sorted_lat) then sorted_lat ! (length sorted_lat - 1)
            else
              (let weight = fsub index (round64 (real_of_int lower))
               in int64_of_float
                    (fadd (fmul (round64 (float64_of (sorted_lat ! nat lower))) (fsub 1 weight))
                          (fmul (round64 (float64_of (sorted_lat ! nat upper))) weight)))))"

text \<open>\<open>createHistogram\<close>: one pass over the latencies, 10 ms buckets.\<close>

definition createHistogram :: "Duration list \<Rightarrow> (goint \<rightharpoonup> goint)" where
  "createHistogram latencies =
     foldl (\<lambda>histogram latency.
              (let ms = Milliseconds latency;
                   bucket = godiv ms 10
               in map_incr histogram bucket))
           Map.empty latencies"

text \<open>
  The first loop of \<open>Calculate\<close>: its state is the latency slice, the two running totals
  and the statistics record whose counters it updates.
\<close>

fun Calculate_loop ::
  "TimingBreakdown list \<Rightarrow> Duration list \<times> Duration \<times> int64 \<times> Stats
     \<Rightarrow> Duration list \<times> Duration \<times> int64 \<times> Stats" where
  "Calculate_loop [] st = st"
| "Calculate_loop (t # ts) (latencies, totalLatency, totalBytes, stats) =
     (let latency = Total t;
          latencies = latencies @ [latency];
          totalLatency = totalLatency + latency;
          totalBytes = totalBytes + ResponseSize t;
          stats = (if Error t = []
                   then stats\<lparr>SuccessfulRequests := SuccessfulRequests stats + 1,
                              StatusCodes := map_incr (StatusCodes stats) (StatusCode t)\<rparr>
                   else stats\<lparr>FailedRequests := FailedRequests stats + 1\<rparr>)
      in Calculate_loop ts (latencies, totalLatency, totalBytes, stats))"

text \<open>
  \<open>Calculate\<close>. \<open>sort.Slice\<close> with the comparison \<open>latencies[i] < latencies[j]\<close> orders
  the slice by signed value. The constants \<open>99.9\<close> and \<open>99.99\<close> passed to \<open>percentile\<close>
  are the binary64 values nearest to these decimals; 50, 90, 95 and 99 are binary64 values
  themselves.
\<close>

definition Calculate :: "Collector \<Rightarrow> Stats" where
  "Calculate c =
     (if length (timings c) = 0 then zeroStats
      else
        (let stats = zeroStats\<lparr>TotalRequests := word_of_nat (length (timings c))\<rparr>
         in case Calculate_loop (timings c) ([], 0, 0, stats) of
              (latencies, totalLatency, totalBytes, stats) \<Rightarrow>
                (let latencies = sort_key sint latencies;
                     stats = stats\<lparr>MinLatency := latencies ! 0,
                                    MaxLatency := latencies ! (length latencies - 1),
                                    MeanLatency := godiv totalLatency (word_of_nat (length latencies))\<rparr>;
                     stats = stats\<lparr>P50 := percentile latencies 50, P90 := percentile latencies 90,
                                    P95 := percentile latencies 95, P99 := percentile latencies 99\<rparr>;
                     stats = (if length latencies \<ge> 1000
                              then stats\<lparr>P999 := percentile latencies (round64 99.9)\<rparr> else stats);
                     stats = (if length latencies \<ge> 10000
                              then stats\<lparr>P9999 := percentile latencies (round64 99.99)\<rparr> else stats);
                     stats = stats\<lparr>Histogram := createHistogram latencies\<rparr>;
                     stats = stats\<lparr>StatsDuration := time_Sub (endTime c) (startTime c)\<rparr>;
                     stats = stats\<lparr>ErrorRate := float64_of (FailedRequests stats)
                                                  / float64_of (TotalRequests stats)\<rparr>;
                     stats = stats\<lparr>TotalBytes_stats := totalBytes\<rparr>
                 in stats)))"

section \<open>Timing capture\<close>

text \<open>
  \<open>Client.MeasureRequest\<close> performs one HTTP exchange. What the network and the standard
  library contribute to one call is an \<open>Exchange\<close>: whether \<open>http.NewRequest\<close> accepts
  the method and URL, whether \<open>client.Do\<close> fails with a transport error, what the tracer
  has captured when \<open>tracer.End\<close> returns, and the response with the bytes and the error
  that reading its body yields.
\<close>

record ClientConfig =
  IncludeHeaders :: bool
  ShowBody :: bool
  ShowErrorBody :: bool
  StallThreshold :: Duration

record Traced =
  tr_DNSLookup :: Duration
  tr_TCPConnection :: Duration
  tr_TLSHandshake :: Duration
  tr_ServerProcessing :: Duration
  tr_ContentTransfer :: Duration
  tr_Total :: Duration
  tr_ConnectionReused :: bool
  tr_ConnectionIdle :: bool
  tr_IdleTime :: Duration
  tr_TLSVersion :: string
  tr_TLSCipherSuite :: string
  tr_TLSServerName :: string

text \<open>
  A response header maps a key to one or more values; the standard library never stores an
  empty value list, so a value list is its first element and the rest.
\<close>

record Response =
  resp_StatusCode :: goint
  resp_ContentLength :: int64
  resp_Header :: "(string \<times> string \<times> string list) list"

record Exchange =
  newRequestError :: "string option"
  doError :: "string option"
  traced :: Traced
  response :: Response
  bodyRead :: string
  bodyError :: "string option"

text \<open>
  \<open>tracer.Timing()\<close>: the tracer starts from the zero \<open>TimingBreakdown\<close> and fills in the
  durations, the connection flags and the TLS description.
\<close>

definition Timing :: "Traced \<Rightarrow> TimingBreakdown" where
  "Timing tr =
     \<lparr>DNSLookup = tr_DNSLookup tr, TCPConnection = tr_TCPConnection tr,
      TLSHandshake = tr_TLSHandshake tr, ServerProcessing = tr_ServerProcessing tr,
      ContentTransfer = tr_ContentTransfer tr, Total = tr_Total tr,
      ConnectionReused = tr_ConnectionReused tr, ConnectionIdle = tr_ConnectionIdle tr,
      IdleTime = tr_IdleTime tr, StatusCode = 0, ContentLength = 0, ResponseSize = 0,
      ResponseHeaders = [], ResponseBody = [], TLSVersion = tr_TLSVersion tr,
      TLSCipherSuite = tr_TLSCipherSuite tr, TLSServerName = tr_TLSServerName tr,
      Error = [], Streaming = None\<rparr>"

text \<open>Several values of one header are joined with a comma and a space.\<close>

definition join_values :: "string \<times> string list \<Rightarrow> string" where
  "join_values vs = foldl (\<lambda>acc v. acc @ '', '' @ v) (fst vs) (snd vs)"

text \<open>
  \<open>MeasureRequest\<close> returns the pair \<open>(timing, err)\<close>; \<open>None\<close> is \<open>nil\<close>. Both ways of
  reading the body (\<open>io.ReadAll\<close> and \<open>io.Copy\<close> to \<open>io.Discard\<close>) report the number
  of bytes read.
\<close>

definition MeasureRequest ::
  "ClientConfig \<Rightarrow> Exchange \<Rightarrow> TimingBreakdown option \<times> string option" where
  "MeasureRequest config ex =
     (case newRequestError ex of
        Some err \<Rightarrow> (None, Some err)
      | None \<Rightarrow>
          (case doError ex of
             Some err \<Rightarrow> (Some ((Timing (traced ex))\<lparr>Error := err\<rparr>), Some err)
           | None \<Rightarrow>
               (let resp = response ex;
                    timing = Timing (traced ex);
                    timing = (if IncludeHeaders config
                              then timing\<lparr>ResponseHeaders :=
                                     map (\<lambda>(key, vs). (key, join_values vs)) (resp_Header resp)\<rparr>
                              else timing);
                    shouldCaptureBody = (ShowBody config
                        \<or> (ShowErrorBody config \<and> 400 \<le>s resp_StatusCode resp));
                    written = (word_of_nat (length (bodyRead ex)) :: int64);
                    timing = timing\<lparr>StatusCode := resp_StatusCode resp,
                                     ContentLength := resp_ContentLength resp,
                                     ResponseSize := written\<rparr>;
                    timing = (if shouldCaptureBody \<and> length (bodyRead ex) > 0
                              then timing\<lparr>ResponseBody := bodyRead ex\<rparr> else timing);
                    timing = (case bodyError ex of
                                Some err \<Rightarrow> timing\<lparr>Error := err\<rparr>
                              | None \<Rightarrow> timing)
                in (Some timing, None))))"

section \<open>Concurrent load generator\<close>

subsection \<open>Configuration and state\<close>

record Config =
  URLs :: "string list"
  Method :: string
  Headers :: "string list"
  Data :: string
  Requests :: goint
  Concurrency :: goint
  TestDuration :: string
  Timeout :: string
  Insecure :: bool
  OutputFormat :: string
  Verbose :: bool
  Quiet :: bool
  EnableStreaming :: bool
  ExpectStreaming :: bool

record App =
  config :: Config
  client :: ClientConfig
  collector :: Collector

record job =
  job_url :: string
  job_id :: goint

text \<open>
  A worker goroutine is either at the head of its \<open>for j := range jobs\<close> loop, or in the
  loop body holding a job, or has left the loop and run \<open>wg.Done\<close>. The main goroutine,
  once the workers are started, sends the remaining jobs, closes the channel, waits for the
  workers and returns.
\<close>

datatype worker = Idle | Busy job | Exited

datatype run_error = NoURLs | FormatFailed string

datatype main_pc = Sending "job list" | Waiting | Returned "run_error option"

record LoadState =
  jobs :: "job list"
  jobs_cap :: nat
  jobs_closed :: bool
  workers :: "worker list"
  pc :: main_pc
  coll :: Collector
  stats_out :: "Stats option"

text \<open>
  What lies outside the generator: the exchange each job meets, the clock reading taken by
  \<open>Finalize\<close>, and whether the formatter's \<open>WriteMultiple\<close> fails.
\<close>

record World =
  net :: "job \<Rightarrow> Exchange"
  finalize_now :: int
  writeMultiple :: "Stats \<Rightarrow> string option"

subsection \<open>The sequential prefix of \<open>runLoad\<close>\<close>

text \<open>
  The jobs in the order the two nested loops send them: URLs outer, repetitions inner,
  numbered from zero.
\<close>

definition all_jobs :: "Config \<Rightarrow> job list" where
  "all_jobs cfg =
     map (\<lambda>(k, u). \<lparr>job_url = u, job_id = word_of_nat k\<rparr>)
         (enumerate 0 (concat (map (replicate (nat (sint (Requests cfg)))) (URLs cfg))))"

datatype start_failure = ReturnedError run_error | PanicMakeChan

text \<open>
  Up to the first send: the URL check, the channel (whose creation panics on a negative
  capacity) and the \<open>Concurrency\<close> goroutines, of which there are none when
  \<open>Concurrency \<le> 0\<close>, the loop \<open>for i := 0; i < Concurrency; i++\<close> having no iteration.
  The memory of the channel's buffer is outside the model: a capacity that the runtime
  cannot allocate ends the program at this point as well.
\<close>

definition runLoad_start :: "App \<Rightarrow> start_failure + LoadState" where
  "runLoad_start a =
     (if length (URLs (config a)) = 0 then Inl (ReturnedError NoURLs)
      else
        (let totalRequests = Requests (config a) * word_of_nat (length (URLs (config a)))
         in if totalRequests <s 0 then Inl PanicMakeChan
            else Inr \<lparr>jobs = [], jobs_cap = nat (sint totalRequests), jobs_closed = False,
                      workers = replicate (nat (sint (Concurrency (config a)))) Idle,
                      pc = Sending (all_jobs (config a)),
                      coll = collector a, stats_out = None\<rparr>))"

subsection \<open>Interleaved execution\<close>

text \<open>
  One step of the main goroutine or of worker \<open>i\<close>; \<open>None\<close> when that goroutine cannot
  move (a send on a full channel, a receive on an empty open channel, \<open>wg.Wait\<close> with a
  worker still running, or a goroutine that has finished). On a channel without buffer
  (capacity 0) a send and a receive happen together: \<open>Handoff i\<close> passes the next job
  from the main goroutine straight to the waiting worker \<open>i\<close>.
\<close>

datatype event = MainStep | WorkerStep nat | Handoff nat

definition worker_body :: "App \<Rightarrow> World \<Rightarrow> job \<Rightarrow> Collector \<Rightarrow> Collector" where
  "worker_body a w j c =
     (case fst (MeasureRequest (client a) (net w j)) of
        Some timing \<Rightarrow> Record c timing
      | None \<Rightarrow> c)"

definition main_step :: "World \<Rightarrow> LoadState \<Rightarrow> LoadState option" where
  "main_step w s =
     (case pc s of
        Sending (j # js) \<Rightarrow>
          (if length (jobs s) < jobs_cap s
           then Some (s\<lparr>jobs := jobs s @ [j], pc := Sending js\<rparr>)
           else None)
      | Sending [] \<Rightarrow> Some (s\<lparr>jobs_closed := True, pc := Waiting\<rparr>)
      | Waiting \<Rightarrow>
          (if list_all (\<lambda>x. x = Exited) (workers s)
           then (let c = Finalize (coll s) (finalize_now w);
                     stats = Calculate c
                 in Some (s\<lparr>coll := c, stats_out := Some stats,
                            pc := Returned (case writeMultiple w stats of
                                              Some err \<Rightarrow> Some (FormatFailed err)
                                            | None \<Rightarrow> None)\<rparr>))
           else None)
      | Returned r \<Rightarrow> None)"

definition worker_step :: "App \<Rightarrow> World \<Rightarrow> nat \<Rightarrow> LoadState \<Rightarrow> LoadState option" where
  "worker_step a w i s =
     (if i < length (workers s) then
        (case workers s ! i of
           Idle \<Rightarrow>
             (case jobs s of
                j # rest \<Rightarrow> Some (s\<lparr>jobs := rest, workers := (workers s)[i := Busy j]\<rparr>)
              | [] \<Rightarrow> (if jobs_closed s
                       then Some (s\<lparr>workers := (workers s)[i := Exited]\<rparr>)
                       else None))
         | Busy j \<Rightarrow>
             Some (s\<lparr>coll := worker_body a w j (coll s), workers := (workers s)[i := Idle]\<rparr>)
         | Exited \<Rightarrow> None)
      else None)"

definition handoff_step :: "nat \<Rightarrow> LoadState \<Rightarrow> LoadState option" where
  "handoff_step i s =
     (case pc s of
        Sending (j # js) \<Rightarrow>
          (if jobs_cap s = 0 \<and> i < length (workers s) \<and> workers s ! i = Idle
           then Some (s\<lparr>workers := (workers s)[i := Busy j], pc := Sending js\<rparr>)
           else None)
      | _ \<Rightarrow> None)"

fun step :: "App \<Rightarrow> World \<Rightarrow> event \<Rightarrow> LoadState \<Rightarrow> LoadState option" where
  "step a w MainStep s = main_step w s"
| "step a w (WorkerStep i) s = worker_step a w i s"
| "step a w (Handoff i) s = handoff_step i s"

fun exec :: "App \<Rightarrow> World \<Rightarrow> event list \<Rightarrow> LoadState \<Rightarrow> LoadState option" where
  "exec a w [] s = Some s"
| "exec a w (e # es) s = (case step a w e s of None \<Rightarrow> None | Some s' \<Rightarrow> exec a w es s')"

text \<open>
  \<open>runLoad\<close> under a schedule: the failure of the prefix, or the state the schedule leads
  to; \<open>None\<close> when the schedule asks a goroutine to move that cannot.
\<close>

definition runLoad :: "App \<Rightarrow> World \<Rightarrow> event list \<Rightarrow> (start_failure + LoadState) option" where
  "runLoad a w sched =
     (case runLoad_start a of
        Inl failure \<Rightarrow> Some (Inl failure)
      | Inr s0 \<Rightarrow> map_option Inr (exec a w sched s0))"

section \<open>Notions used to state the properties\<close>

subsection \<open>Stalls\<close>

text \<open>
  The gap that ends at chunk \<open>i\<close> (for \<open>1 \<le> i\<close>) starts at chunk \<open>i - 1\<close>. Its stall
  record, as the specification describes it: the duration is the delay between the two
  chunks and the position is the sum of the sizes of the chunks before chunk \<open>i - 1\<close>.
\<close>

definition gap_delay :: "ChunkTiming list \<Rightarrow> nat \<Rightarrow> Duration" where
  "gap_delay cs i = ElapsedTime (cs ! i) - ElapsedTime (cs ! (i - 1))"

definition stall_of_gap :: "ChunkTiming list \<Rightarrow> nat \<Rightarrow> StallInfo" where
  "stall_of_gap cs i =
     \<lparr>StartTime = ElapsedTime (cs ! (i - 1)), EndTime = ElapsedTime (cs ! i),
      Duration = gap_delay cs i, Position = sum_list (map Size (take (i - 1) cs))\<rparr>"

subsection \<open>Pattern and buffering score\<close>

text \<open>The number of delays longer than 500 ms.\<close>

definition long_delays :: "float64 list \<Rightarrow> nat" where
  "long_delays delays = length (filter (\<lambda>d. d > 500) delays)"

text \<open>The buffering score as the specification adds it up.\<close>

definition buffering_score :: "BufferingAnalysis \<Rightarrow> StreamMetrics \<Rightarrow> int" where
  "buffering_score analysis sm =
     (if TotalChunks sm = 1 then 2 else 0)
   + (if Second <s TimeToFirstByte analysis \<and> ChunkPattern analysis = ''burst'' then 1 else 0)
   + (if Second <s FirstChunkGap analysis then 1 else 0)
   + (if ChunkTimingCV analysis < 0.3 \<and> 500 * Millisecond <s TimeToFirstByte analysis
      then 1 else 0)"

subsection \<open>Latency histogram\<close>

text \<open>
  The bucket of a latency as the specification gives it: the floor of the latency in whole
  milliseconds divided by 10. \<open>bucket_count b ts\<close> is the number of samples of \<open>ts\<close>
  that fall in bucket \<open>b\<close>.
\<close>

definition histogram_bucket :: "Duration \<Rightarrow> goint" where
  "histogram_bucket latency = word_of_int \<lfloor>real_of_int (sint (Milliseconds latency)) / 10\<rfloor>"

definition bucket_count :: "goint \<Rightarrow> TimingBreakdown list \<Rightarrow> nat" where
  "bucket_count b ts = length (filter (\<lambda>t. histogram_bucket (Total t) = b) ts)"

text \<open>The step of the histogram loop, named for the proofs.\<close>

definition hist_step :: "(goint \<rightharpoonup> goint) \<Rightarrow> Duration \<Rightarrow> (goint \<rightharpoonup> goint)" where
  "hist_step h latency = map_incr h (godiv (Milliseconds latency) 10)"

subsection \<open>Percentiles\<close>





subsection \<open>Chunk capture\<close>

text \<open>The chunk record that a read of \<open>n > 0\<close> bytes at instant \<open>now\<close> appends.\<close>

definition new_chunk :: "int \<Rightarrow> 'r StreamingReader \<Rightarrow> goint \<Rightarrow> ChunkTiming" where
  "new_chunk now sr n =
     \<lparr>SequenceNumber = chunkNumber sr, Size = n,
      ElapsedTime = time_Sub now (startTime_sr sr), Timestamp = now,
      Throughput = (if Seconds (time_Sub now (lastRead sr)) > 0
                    then (float64_of n * 8) / (Seconds (time_Sub now (lastRead sr)) * 1000000)
                    else 0)\<rparr>"

subsection \<open>Load generator\<close>

text \<open>
  \<open>captured a w j\<close> is the sample Timing Capture hands back for job \<open>j\<close>, if any, and
  \<open>samples_of\<close> the samples of a list of jobs. The jobs a state still has to process are
  those held by busy workers, those in the channel and those not yet sent.
\<close>

definition captured :: "App \<Rightarrow> World \<Rightarrow> job \<Rightarrow> TimingBreakdown option" where
  "captured a w j = fst (MeasureRequest (client a) (net w j))"

definition samples_of :: "App \<Rightarrow> World \<Rightarrow> job list \<Rightarrow> TimingBreakdown list" where
  "samples_of a w js = List.map_filter (captured a w) js"

fun busy_jobs :: "worker list \<Rightarrow> job list" where
  "busy_jobs [] = []"
| "busy_jobs (Busy j # ws) = j # busy_jobs ws"
| "busy_jobs (_ # ws) = busy_jobs ws"

fun unsent :: "main_pc \<Rightarrow> job list" where
  "unsent (Sending js) = js"
| "unsent _ = []"

definition outstanding :: "LoadState \<Rightarrow> job multiset" where
  "outstanding s = mset (busy_jobs (workers s)) + mset (jobs s) + mset (unsent (pc s))"

definition samples_mset :: "App \<Rightarrow> World \<Rightarrow> job multiset \<Rightarrow> TimingBreakdown multiset" where
  "samples_mset a w J = image_mset (\<lambda>j. the (captured a w j)) (filter_mset (\<lambda>j. captured a w j \<noteq> None) J)"

text \<open>
  Two invariants of a run. \<open>account\<close>: the recorded samples together with the samples of
  the outstanding jobs never change. \<open>settled\<close>: nothing is sent after the channel is
  closed, a worker exits only on a closed and empty channel, and the main goroutine returns
  only after every worker has exited.
\<close>

definition account :: "App \<Rightarrow> World \<Rightarrow> LoadState \<Rightarrow> TimingBreakdown multiset" where
  "account a w s = mset (timings (coll s)) + samples_mset a w (outstanding s)"

definition settled :: "LoadState \<Rightarrow> bool" where
  "settled s =
     ((jobs_closed s \<longrightarrow> unsent (pc s) = [])
      \<and> (Exited \<in> set (workers s) \<longrightarrow> jobs_closed s \<and> jobs s = [])
      \<and> ((\<exists>r. pc s = Returned r) \<longrightarrow> list_all (\<lambda>x. x = Exited) (workers s)))"

section \<open>Example inputs\<close>

text \<open>A chunk of 100 bytes arriving \<open>ms\<close> milliseconds after the start of the stream.\<close>

definition chunk :: "nat \<Rightarrow> int \<Rightarrow> ChunkTiming" where
  "chunk k ms = \<lparr>SequenceNumber = word_of_nat k, Size = 100,
                 ElapsedTime = word_of_int ms * Millisecond, Timestamp = 0, Throughput = 0\<rparr>"

text \<open>The metrics of a drained stream with the given chunks.\<close>

definition stream_of :: "ChunkTiming list \<Rightarrow> StreamMetrics" where
  "stream_of cs = \<lparr>ChunkTimings = cs, BytesPerSecond = 0,
                   FirstChunkTime = (case cs of [] \<Rightarrow> 0 | c # _ \<Rightarrow> ElapsedTime c),
                   LastChunkTime = (case cs of [] \<Rightarrow> 0 | _ \<Rightarrow> ElapsedTime (last cs)),
                   TotalChunks = word_of_nat (length cs),
                   TotalBytes = sum_list (map Size cs), AverageChunkSize = 0,
                   Protocol = ''HTTP/1.1'', StreamID = 0, Analysis = None, Stalls = []\<rparr>"

text \<open>Five chunks whose four delays are 100, 800, 900 and 2000 ms.\<close>

definition five_chunk_stream :: StreamMetrics where
  "five_chunk_stream =
     stream_of [chunk 0 0, chunk 1 100, chunk 2 900, chunk 3 1800, chunk 4 3800]"

text \<open>The timeline of the repository's test "multiple stalls": chunks at 100, 800, 900, 2000 ms.\<close>

definition four_chunk_stream :: StreamMetrics where
  "four_chunk_stream = stream_of [chunk 0 100, chunk 1 800, chunk 2 900, chunk 3 2000]"

definition two_chunk_stream :: StreamMetrics where
  "two_chunk_stream = stream_of [chunk 0 100, chunk 1 200]"

definition one_chunk_stream :: StreamMetrics where
  "one_chunk_stream = stream_of [chunk 0 100]"

text \<open>An analysis record with the given pattern and coefficient of variation.\<close>

definition analysis_with :: "string \<Rightarrow> float64 \<Rightarrow> BufferingAnalysis" where
  "analysis_with pattern cv =
     \<lparr>TimeToFirstByte = 0, FirstChunkGap = 0, ChunkPattern = pattern, StallCount = 0,
      TotalStallTime = 0, ChunkTimingCV = cv, BufferingDetected = False, MeanDelay = 0,
      StdDevDelay = 0, MinDelay = -1, MaxDelay = -1, StreamingQuality = [], Confidence = 0\<rparr>"

text \<open>A successful sample with a total latency of \<open>ms\<close> milliseconds.\<close>

definition sample_ms :: "int \<Rightarrow> TimingBreakdown" where
  "sample_ms ms =
     \<lparr>DNSLookup = 0, TCPConnection = 0, TLSHandshake = 0, ServerProcessing = 0,
      ContentTransfer = 0, Total = word_of_int ms * Millisecond, ConnectionReused = False,
      ConnectionIdle = False, IdleTime = 0, StatusCode = 200, ContentLength = 0,
      ResponseSize = 0, ResponseHeaders = [], ResponseBody = [], TLSVersion = [],
      TLSCipherSuite = [], TLSServerName = [], Error = [], Streaming = None\<rparr>"

text \<open>The specification's histogram example: latencies of 5, 15, 25, 95 and 105 ms.\<close>

definition five_samples :: Collector where
  "five_samples = \<lparr>timings = map sample_ms [5, 105, 25, 95, 15], startTime = 0, endTime = 1000000000\<rparr>"



text \<open>
  A reader over a fixed sequence of reads: each read copies its data over the start of the
  buffer and reports its length and its error; after the last one the reader reports the end
  of the stream.
\<close>

definition list_reader :: "(bytes \<times> string option) list reader_fn" where
  "list_reader r p =
     (case r of
        [] \<Rightarrow> (p, 0, Some ''EOF'', [])
      | (data, err) # rest \<Rightarrow>
          (data @ drop (length data) p, word_of_nat (length data), err, rest))"

definition example_body :: "(bytes \<times> string option) list" where
  "example_body = [([1, 2, 3], None), ([4, 5], None)]"

definition example_clock :: "nat \<Rightarrow> int" where
  "example_clock k = 1000000 * (int k + 1)"

text \<open>
  A load run against the URL \<open>u\<close> with \<open>r\<close> requests and \<open>c\<close> workers, a
  well-formed URL, and one that \<open>http.NewRequest\<close> rejects (it has no scheme).
\<close>

definition example_url :: string where
  "example_url = ''http://example.test/''"

definition malformed_url :: string where
  "malformed_url = ''://bad''"

definition example_config :: "string \<Rightarrow> goint \<Rightarrow> goint \<Rightarrow> Config" where
  "example_config u r c =
     \<lparr>URLs = [u], Method = ''GET'', Headers = [], Data = [],
      Requests = r, Concurrency = c, TestDuration = [], Timeout = ''30s'', Insecure = False,
      OutputFormat = ''table'', Verbose = False, Quiet = True, EnableStreaming = False,
      ExpectStreaming = False\<rparr>"

definition example_app :: "string \<Rightarrow> goint \<Rightarrow> goint \<Rightarrow> App" where
  "example_app u r c =
     \<lparr>config = example_config u r c,
      client = \<lparr>IncludeHeaders = False, ShowBody = False, ShowErrorBody = False,
                StallThreshold = 500 * Millisecond\<rparr>,
      collector = NewCollector 0\<rparr>"


text \<open>
  The exchanges a job can meet: a successful one, a refused connection, and a request that
  could not be constructed.
\<close>

definition example_trace :: Traced where
  "example_trace =
     \<lparr>tr_DNSLookup = 0, tr_TCPConnection = 0, tr_TLSHandshake = 0, tr_ServerProcessing = 0,
      tr_ContentTransfer = 0, tr_Total = 5 * Millisecond, tr_ConnectionReused = False,
      tr_ConnectionIdle = False, tr_IdleTime = 0, tr_TLSVersion = [], tr_TLSCipherSuite = [],
      tr_TLSServerName = []\<rparr>"

definition ok_exchange :: Exchange where
  "ok_exchange =
     \<lparr>newRequestError = None, doError = None, traced = example_trace,
      response = \<lparr>resp_StatusCode = 200, resp_ContentLength = 2, resp_Header = []\<rparr>,
      bodyRead = ''ok'', bodyError = None\<rparr>"

definition refused_exchange :: Exchange where
  "refused_exchange = ok_exchange\<lparr>doError := Some ''connection refused''\<rparr>"

definition malformed_exchange :: Exchange where
  "malformed_exchange = ok_exchange\<lparr>newRequestError := Some ''missing protocol scheme''\<rparr>"

definition example_world :: "(job \<Rightarrow> Exchange) \<Rightarrow> World" where
  "example_world n = \<lparr>net = n, finalize_now = 1000, writeMultiple = (\<lambda>stats. None)\<rparr>"

text \<open>
  The schedule of a run of two jobs with one worker: the main goroutine sends both jobs and
  closes the channel, the worker takes and finishes each job and exits, the main goroutine
  returns.
\<close>

definition one_worker_schedule :: "event list" where
  "one_worker_schedule =
     [MainStep, MainStep, MainStep,
      WorkerStep 0, WorkerStep 0, WorkerStep 0, WorkerStep 0, WorkerStep 0,
      MainStep]"

text \<open>The first job's connection is refused; the final state of that run.\<close>

definition flaky_net :: "job \<Rightarrow> Exchange" where
  "flaky_net j = (if job_id j = 0 then refused_exchange else ok_exchange)"

definition flaky_final :: LoadState where
  "flaky_final =
     \<lparr>jobs = [], jobs_cap = 2, jobs_closed = True, workers = [Exited], pc = Returned None,
      coll = \<lparr>timings = [(Timing example_trace)\<lparr>Error := ''connection refused''\<rparr>,
                        (Timing example_trace)\<lparr>StatusCode := 200, ContentLength := 2,
                                                ResponseSize := 2\<rparr>],
              startTime = 0, endTime = 1000\<rparr>,
      stats_out = Some (Calculate
        \<lparr>timings = [(Timing example_trace)\<lparr>Error := ''connection refused''\<rparr>,
                    (Timing example_trace)\<lparr>StatusCode := 200, ContentLength := 2,
                                            ResponseSize := 2\<rparr>],
         startTime = 0, endTime = 1000\<rparr>)\<rparr>"

section \<open>Properties of the streaming delivery analyzer\<close>

subsection \<open>Stall detection\<close>

lemma DetectStalls_loop_eq:
  "1 \<le> i \<Longrightarrow> totalBytes = sum_list (map Size (take (i - 1) cs)) \<Longrightarrow>
   DetectStalls_loop cs threshold i totalBytes stalls
     = stalls @ map (stall_of_gap cs) (filter (\<lambda>k. threshold <s gap_delay cs k) [i..<length cs])"
proof (induction cs threshold i totalBytes stalls rule: DetectStalls_loop.induct)
  case (1 cs threshold i totalBytes stalls)
  show ?case
  proof (cases "i < length cs")
    case False
    then show ?thesis by (simp add: DetectStalls_loop.simps [of cs threshold i])
  next
    case True
    have upt: "[i..<length cs] = i # [i + 1..<length cs]"
      using True by (simp add: upt_conv_Cons)
    have tk: "sum_list (map Size (take i cs)) = totalBytes + Size (cs ! (i - 1))"
      using True "1.prems" by (cases i) (simp_all add: take_Suc_conv_app_nth)
    define prev where "prev = cs ! (i - 1)"
    define curr where "curr = cs ! i"
    define delay where "delay = ElapsedTime curr - ElapsedTime prev"
    define st where "st = (if threshold <s delay
                        then stalls @ [\<lparr>StartTime = ElapsedTime prev, EndTime = ElapsedTime curr,
                                        Duration = delay, Position = totalBytes\<rparr>]
                        else stalls)"
    have unfold: "DetectStalls_loop cs threshold i totalBytes stalls
        = DetectStalls_loop cs threshold (i + 1) (totalBytes + Size prev) st"
      using True
      by (subst DetectStalls_loop.simps) (simp add: Let_def prev_def curr_def delay_def st_def)
    have ih: "DetectStalls_loop cs threshold (i + 1) (totalBytes + Size prev) st
        = st @ map (stall_of_gap cs)
                   (filter (\<lambda>k. threshold <s gap_delay cs k) [i + 1..<length cs])"
    proof (rule "1.IH" [OF True])
      show "prev = cs ! (i - 1)" by (fact prev_def)
      show "curr = cs ! i" by (fact curr_def)
      show "delay = ElapsedTime curr - ElapsedTime prev" by (fact delay_def)
      show "st = (if threshold <s delay
                        then stalls @ [\<lparr>StartTime = ElapsedTime prev, EndTime = ElapsedTime curr,
                                        Duration = delay, Position = totalBytes\<rparr>]
                        else stalls)" by (fact st_def)
      show "1 \<le> i + 1" by simp
      show "totalBytes + Size prev = sum_list (map Size (take (i + 1 - 1) cs))"
        using tk by (simp add: prev_def)
    qed
    have here: "st = stalls @ map (stall_of_gap cs) (filter (\<lambda>k. threshold <s gap_delay cs k) [i])"
      using "1.prems"
      by (simp add: st_def gap_delay_def stall_of_gap_def delay_def prev_def curr_def)
    have "DetectStalls_loop cs threshold i totalBytes stalls
        = st @ map (stall_of_gap cs)
                   (filter (\<lambda>k. threshold <s gap_delay cs k) [i + 1..<length cs])"
      by (simp only: unfold ih)
    also have "\<dots> = stalls @ map (stall_of_gap cs)
        (filter (\<lambda>k. threshold <s gap_delay cs k) (i # [i + 1..<length cs]))"
      by (simp add: here)
    finally show ?thesis
      by (simp only: upt)
  qed
qed

lemma DetectStalls_eq:
  "DetectStalls sm threshold
     = map (stall_of_gap (ChunkTimings sm))
           (filter (\<lambda>k. threshold <s gap_delay (ChunkTimings sm) k)
                   [1..<length (ChunkTimings sm)])"
  by (simp add: DetectStalls_def DetectStalls_loop_eq)

lemma upt_1_5: "[1..<5] = [1, 2, 3, 4::nat]"
  by (simp add: upt_rec)

lemma upt_1_4: "[1..<4] = [1, 2, 3::nat]"
  by (simp add: upt_rec)

text \<open>
  C8. The stalls are exactly the records of the gaps whose delay exceeds the threshold, one
  per gap and in timeline order: the duration is the delay, and the position is the sum of
  the sizes of the chunks strictly before the chunk that starts the gap. A timeline of zero
  or one chunk has no stall.
\<close>

theorem DetectStalls_one_stall_per_long_gap:
  "DetectStalls sm threshold
     = map (stall_of_gap (ChunkTimings sm))
           (filter (\<lambda>i. threshold <s gap_delay (ChunkTimings sm) i)
                   [1..<length (ChunkTimings sm)])
   \<and> (\<forall>i. Duration (stall_of_gap (ChunkTimings sm) i)
            = ElapsedTime (ChunkTimings sm ! i) - ElapsedTime (ChunkTimings sm ! (i - 1))
          \<and> Position (stall_of_gap (ChunkTimings sm) i)
            = sum_list (map Size (take (i - 1) (ChunkTimings sm))))
   \<and> (length (ChunkTimings sm) \<le> 1 \<longrightarrow> DetectStalls sm threshold = [])"
  by (simp add: DetectStalls_eq stall_of_gap_def gap_delay_def)

theorem DetectStalls_one_stall_per_long_gap_witness:
  "length (ChunkTimings one_chunk_stream) \<le> 1
   \<and> DetectStalls one_chunk_stream (500 * Millisecond) = []
   \<and> DetectStalls four_chunk_stream (500 * Millisecond)
       = [\<lparr>StartTime = 100 * Millisecond, EndTime = 800 * Millisecond,
           Duration = 700 * Millisecond, Position = 0\<rparr>,
          \<lparr>StartTime = 900 * Millisecond, EndTime = 2000 * Millisecond,
           Duration = 1100 * Millisecond, Position = 200\<rparr>]"
  using DetectStalls_one_stall_per_long_gap [of one_chunk_stream "500 * Millisecond"]
    DetectStalls_one_stall_per_long_gap [of four_chunk_stream "500 * Millisecond"]
  by (simp add: one_chunk_stream_def four_chunk_stream_def stream_of_def chunk_def
      Millisecond_def upt_1_4 stall_of_gap_def gap_delay_def)

text \<open>
  The repository's test "multiple stalls": chunks at 100, 800, 900 and 2000 ms (delays of
  700, 100 and 1100 ms) give two stalls.
\<close>

lemma DetectStalls_test_multiple_stalls:
  "length (DetectStalls four_chunk_stream (500 * Millisecond)) = 2"
  by (simp add: DetectStalls_eq four_chunk_stream_def stream_of_def chunk_def
      Millisecond_def upt_1_4 gap_delay_def)

text \<open>
  C3, as the specification words it, fails: with the four delays 100, 800, 900 and 2000 ms
  three of them exceed 500 ms, and three stalls are reported, not two.
\<close>

theorem DetectStalls_four_delays_counterexample:
  "map (gap_delay (ChunkTimings five_chunk_stream)) [1, 2, 3, 4]
     = [100 * Millisecond, 800 * Millisecond, 900 * Millisecond, 2000 * Millisecond]
   \<and> length (DetectStalls five_chunk_stream (500 * Millisecond)) = 3
   \<and> length (DetectStalls five_chunk_stream (500 * Millisecond)) \<noteq> 2"
  by (simp add: DetectStalls_eq five_chunk_stream_def stream_of_def chunk_def
      Millisecond_def upt_1_5 gap_delay_def)

text \<open>
  C3, amended. For every timeline of five chunks whose four consecutive delays are 100, 800,
  900 and 2000 ms, stall detection with a 500 ms threshold reports exactly three stalls, each
  with a duration of at least 500 ms.
\<close>

theorem DetectStalls_four_delays:
  assumes "ChunkTimings sm = [c0, c1, c2, c3, c4]"
    and "ElapsedTime c1 - ElapsedTime c0 = 100 * Millisecond"
    and "ElapsedTime c2 - ElapsedTime c1 = 800 * Millisecond"
    and "ElapsedTime c3 - ElapsedTime c2 = 900 * Millisecond"
    and "ElapsedTime c4 - ElapsedTime c3 = 2000 * Millisecond"
  shows "length (DetectStalls sm (500 * Millisecond)) = 3
       \<and> (\<forall>s \<in> set (DetectStalls sm (500 * Millisecond)). 500 * Millisecond \<le>s Duration s)"
  using assms
  by (simp add: DetectStalls_eq upt_1_5 gap_delay_def stall_of_gap_def Millisecond_def)

theorem DetectStalls_four_delays_witness:
  "length (DetectStalls five_chunk_stream (500 * Millisecond)) = 3
   \<and> map Duration (DetectStalls five_chunk_stream (500 * Millisecond))
       = [800 * Millisecond, 900 * Millisecond, 2000 * Millisecond]
   \<and> list_all (\<lambda>s. 500 * Millisecond \<le>s Duration s)
               (DetectStalls five_chunk_stream (500 * Millisecond))"
  using DetectStalls_four_delays [of five_chunk_stream "chunk 0 0" "chunk 1 100" "chunk 2 900"
      "chunk 3 1800" "chunk 4 3800"]
  by (simp add: five_chunk_stream_def stream_of_def chunk_def Millisecond_def
      DetectStalls_eq upt_1_5 gap_delay_def stall_of_gap_def)

subsection \<open>Pattern classification\<close>

lemma count_foldl:
  "foldl (\<lambda>n d. if P d then n + 1 else n) (k::nat) xs = k + length (filter P xs)"
  by (induction xs arbitrary: k) simp_all

lemma detectChunkPattern_cases:
  "detectChunkPattern cv delays =
     (if cv < 0.3 then ''steady''
      else if cv < 0.7 then ''moderate''
      else if 0.3 * real (length delays) < real (long_delays delays) then ''stalled''
      else ''burst'')"
proof (cases "delays = []")
  case True
  then show ?thesis by (simp add: detectChunkPattern_def long_delays_def)
next
  case False
  then have "0 < real (length delays)" by simp
  then show ?thesis
    by (simp add: detectChunkPattern_def long_delays_def count_foldl Let_def pos_less_divide_eq)
qed

text \<open>
  C6. The pattern is "steady" when CV < 0.3 and "moderate" when 0.3 \<le> CV < 0.7; when
  CV \<ge> 0.7 it is "stalled" if the delays longer than 500 ms are more than 0.3 of all
  delays, and "burst" otherwise. (For a non-empty series "more than 0.3 of all delays" is
  the fraction exceeding 0.3; an empty series has no long delay and is "burst".)
\<close>

theorem detectChunkPattern_classification:
  "(cv < 0.3 \<longrightarrow> detectChunkPattern cv delays = ''steady'')
   \<and> (0.3 \<le> cv \<and> cv < 0.7 \<longrightarrow> detectChunkPattern cv delays = ''moderate'')
   \<and> (0.7 \<le> cv \<and> delays \<noteq> [] \<and> real (long_delays delays) / real (length delays) > 0.3
        \<longrightarrow> detectChunkPattern cv delays = ''stalled'')
   \<and> (0.7 \<le> cv \<and> \<not> real (long_delays delays) / real (length delays) > 0.3
        \<longrightarrow> detectChunkPattern cv delays = ''burst'')"
proof (cases "delays = []")
  case True
  then show ?thesis by (simp add: detectChunkPattern_cases long_delays_def)
next
  case False
  then have "0 < real (length delays)" by simp
  then show ?thesis
    by (simp add: detectChunkPattern_cases pos_less_divide_eq)
qed

theorem detectChunkPattern_classification_witness:
  "detectChunkPattern 0.1 [100, 105, 95, 102] = ''steady''
   \<and> detectChunkPattern 0.5 [100, 150, 120, 180] = ''moderate''
   \<and> detectChunkPattern 1.5 [100, 600, 150, 700, 120, 800] = ''stalled''
   \<and> detectChunkPattern 1.0 [50, 60, 55, 200, 65, 70] = ''burst''"
  using detectChunkPattern_classification [of "0.1" "[100, 105, 95, 102]"]
    detectChunkPattern_classification [of "0.5" "[100, 150, 120, 180]"]
    detectChunkPattern_classification [of "1.5" "[100, 600, 150, 700, 120, 800]"]
    detectChunkPattern_classification [of "1.0" "[50, 60, 55, 200, 65, 70]"]
  by (simp add: long_delays_def)

subsection \<open>Buffering detection\<close>

text \<open>
  C7. Buffering is detected exactly when the score is at least 2, the score being 2 for a
  single chunk, plus 1 for a time to first byte above 1 s with the pattern "burst", plus 1
  for a first-chunk gap above 1 s, plus 1 for CV < 0.3 with a time to first byte above
  500 ms.
\<close>

theorem detectBuffering_is_score_at_least_two:
  "detectBuffering analysis sm = (buffering_score analysis sm \<ge> 2)"
  by (simp add: detectBuffering_def buffering_score_def Let_def)

subsection \<open>Confidence score\<close>

text \<open>
  Through the whole analysis a stream of two chunks has a single delay, hence a standard
  deviation and a coefficient of variation of zero: it is always "steady", and its confidence
  is always 0.8.
\<close>

lemma AnalyzeBuffering_two_chunks:
  assumes "length (ChunkTimings m) = 2" and "TotalChunks m = 2"
  shows "ChunkPattern (AnalyzeBuffering m) = ''steady'' \<and> Confidence (AnalyzeBuffering m) = 0.8"
proof -
  obtain c0 c1 where cs: "ChunkTimings m = [c0, c1]"
    using assms(1) by (auto simp: length_Suc_conv numeral_2_eq_2)
  have upt: "[1..<2] = [1::nat]" by (simp add: upt_rec)
  show ?thesis
    using assms(2)
    by (simp add: AnalyzeBuffering_def cs Let_def interChunkDelays_def upt
      calculateMean_def calculateStdDev_def detectChunkPattern_def calculateConfidence_def)
qed

text \<open>
  C2, as the specification words it, fails: the stream of two chunks arriving at 100 ms and
  200 ms is analysed as "steady" with confidence 0.8, outside the interval from 0.5 to 0.7.
\<close>

theorem calculateConfidence_two_chunks_counterexample:
  "TotalChunks two_chunk_stream = 2
   \<and> ChunkPattern (AnalyzeBuffering two_chunk_stream) = ''steady''
   \<and> calculateConfidence (AnalyzeBuffering two_chunk_stream) two_chunk_stream = 0.8
   \<and> \<not> (0.5 \<le> calculateConfidence (AnalyzeBuffering two_chunk_stream) two_chunk_stream
         \<and> calculateConfidence (AnalyzeBuffering two_chunk_stream) two_chunk_stream \<le> 0.7)"
proof -
  have tc: "TotalChunks two_chunk_stream = 2"
    by (simp add: two_chunk_stream_def stream_of_def)
  have len: "length (ChunkTimings two_chunk_stream) = 2"
    by (simp add: two_chunk_stream_def stream_of_def)
  have pat: "ChunkPattern (AnalyzeBuffering two_chunk_stream) = ''steady''"
    using AnalyzeBuffering_two_chunks [OF len tc] by simp
  have conf: "calculateConfidence (AnalyzeBuffering two_chunk_stream) two_chunk_stream = 0.8"
    using tc pat by (simp add: calculateConfidence_def Let_def)
  show ?thesis
    by (simp add: tc pat conf)
qed

text \<open>
  C2, amended. With exactly 2 chunks the confidence is 0.6 when the pattern is not "steady"
  and buffering is not detected, and 0.8 otherwise, so it lies between 0.6 and 0.8; with at
  least 10 chunks and the pattern "steady" it is exactly 1.
\<close>

theorem calculateConfidence_two_chunks_and_steady:
  "(TotalChunks sm = 2 \<longrightarrow>
      calculateConfidence analysis sm
        = (if ChunkPattern analysis = ''steady'' \<or> BufferingDetected analysis then 0.8 else 0.6)
      \<and> 0.6 \<le> calculateConfidence analysis sm
      \<and> calculateConfidence analysis sm \<le> 0.8)
   \<and> (10 \<le>s TotalChunks sm \<and> ChunkPattern analysis = ''steady'' \<longrightarrow>
      calculateConfidence analysis sm = 1)"
  by (simp add: calculateConfidence_def Let_def)

theorem calculateConfidence_two_chunks_and_steady_witness:
  "TotalChunks two_chunk_stream = 2
   \<and> calculateConfidence (analysis_with ''moderate'' 0.5) two_chunk_stream = 0.6
   \<and> calculateConfidence (analysis_with ''steady'' 0.1) two_chunk_stream = 0.8
   \<and> 10 \<le>s TotalChunks (two_chunk_stream\<lparr>TotalChunks := 15\<rparr>)
   \<and> calculateConfidence (analysis_with ''steady'' 0.1) (two_chunk_stream\<lparr>TotalChunks := 15\<rparr>) = 1"
  using calculateConfidence_two_chunks_and_steady [of two_chunk_stream "analysis_with ''moderate'' 0.5"]
    calculateConfidence_two_chunks_and_steady [of two_chunk_stream "analysis_with ''steady'' 0.1"]
    calculateConfidence_two_chunks_and_steady
      [of "two_chunk_stream\<lparr>TotalChunks := 15\<rparr>" "analysis_with ''steady'' 0.1"]
  by (simp add: two_chunk_stream_def stream_of_def analysis_with_def)

subsection \<open>Chunk capture\<close>

lemma Read_result:
  assumes "rd (reader sr) p = (p', n, err, r')"
  shows "\<exists>sr'. Read rd now sr p = (p', n, err, sr') \<and> reader sr' = r'
           \<and> startTime_sr sr' = startTime_sr sr
           \<and> ChunkTimings (metrics sr')
               = ChunkTimings (metrics sr) @ (if 0 <s n then [new_chunk now sr n] else [])"
  using assms by (simp add: Read_def Let_def new_chunk_def)

lemma drain_streaming_read:
  "drain fuel (streaming_read rd clock) (k, sr) buf acc = drain fuel rd (reader sr) buf acc"
proof (induction fuel arbitrary: k sr buf acc)
  case 0
  show ?case by simp
next
  case (Suc fuel)
  obtain p' n err r' where u: "rd (reader sr) buf = (p', n, err, r')"
    by (metis prod_cases4)
  obtain sr' where r: "Read rd (clock k) sr buf = (p', n, err, sr')" and rr: "reader sr' = r'"
    using Read_result [of rd sr buf p' n err r' "clock k", OF u] by blast
  show ?case
  proof (cases err)
    case None
    then show ?thesis
      using Suc.IH [of "Suc k" sr' p' "acc @ take (nat (sint n)) p'"]
      by (simp add: streaming_read_def u r rr Let_def)
  next
    case (Some e)
    then show ?thesis by (simp add: streaming_read_def u r Let_def)
  qed
qed

lemma example_reads:
  "list_reader example_body [0, 0, 0, 0] = ([1, 2, 3, 0], 3, None, [([4, 5], None)])"
  by (simp add: list_reader_def example_body_def)

lemma example_drain:
  "drain 5 list_reader example_body [0, 0, 0, 0] [] = Some ([1, 2, 3, 4, 5], ''EOF'')"
  by (simp add: eval_nat_numeral list_reader_def example_body_def Let_def)

text \<open>
  C10. Whatever the wrapped reader's \<open>Read\<close> returns (the buffer as it leaves it, the
  count, the error and its next state), \<open>StreamingReader.Read\<close> returns the same buffer,
  count and error and leaves the wrapped reader in that state; to its own chunk list it only
  appends, one entry when the count is positive and none otherwise. Hence draining through
  the decorated reader gives the same bytes and the same final error as draining the wrapped
  reader, for every amount of fuel (both run out together).
\<close>

theorem Read_passes_through:
  assumes "rd (reader sr) p = (p', n, err, r')"
  shows "(\<exists>sr'. Read rd now sr p = (p', n, err, sr') \<and> reader sr' = r'
            \<and> ChunkTimings (metrics sr')
                = ChunkTimings (metrics sr) @ (if 0 <s n then [new_chunk now sr n] else []))
       \<and> drain fuel (streaming_read rd clock) (k, sr) buf acc
           = drain fuel rd (reader sr) buf acc"
  using Read_result [of rd sr p p' n err r' now, OF assms] drain_streaming_read [of fuel rd clock k sr buf acc]
  by blast

theorem Read_passes_through_witness:
  "list_reader (reader (NewStreamingReader 0 example_body ''HTTP/1.1'')) [0, 0, 0, 0]
     = ([1, 2, 3, 0], 3, None, [([4, 5], None)])
   \<and> fst (Read list_reader 1000000 (NewStreamingReader 0 example_body ''HTTP/1.1'') [0, 0, 0, 0])
       = [1, 2, 3, 0]
   \<and> fst (snd (Read list_reader 1000000 (NewStreamingReader 0 example_body ''HTTP/1.1'')
                   [0, 0, 0, 0])) = 3
   \<and> fst (snd (snd (Read list_reader 1000000 (NewStreamingReader 0 example_body ''HTTP/1.1'')
                   [0, 0, 0, 0]))) = None
   \<and> drain 5 (streaming_read list_reader example_clock)
         (0, NewStreamingReader 0 example_body ''HTTP/1.1'') [0, 0, 0, 0] []
       = Some ([1, 2, 3, 4, 5], ''EOF'')"
proof -
  have r: "list_reader (reader (NewStreamingReader 0 example_body ''HTTP/1.1'')) [0, 0, 0, 0]
     = ([1, 2, 3, 0], 3, None, [([4, 5], None)])"
    by (simp add: NewStreamingReader_def example_reads)
  have rr: "reader (NewStreamingReader 0 example_body ''HTTP/1.1'') = example_body"
    by (simp add: NewStreamingReader_def)
  show ?thesis
    using Read_passes_through [of list_reader "NewStreamingReader 0 example_body ''HTTP/1.1''"
        "[0, 0, 0, 0]" "[1, 2, 3, 0]" 3 None "[([4, 5], None)]" 1000000 5 example_clock 0
        "[0, 0, 0, 0]" "[]", OF r]
    by (auto simp: rr example_reads example_drain)
qed

section \<open>Properties of the metrics collector\<close>

subsection \<open>Signed 64-bit arithmetic\<close>

lemma sint_word_of_int_range:
  "- (2 ^ 63) \<le> k \<Longrightarrow> k < 2 ^ 63 \<Longrightarrow> sint (word_of_int k :: 64 word) = k"
  by (simp add: sint_sbintrunc' signed_take_bit_int_eq_self)

lemma sint_range64: "- (2 ^ 63) \<le> sint (x :: 64 word) \<and> sint x < 2 ^ 63"
  using sint_ge [of x] sint_lt [of x] by simp

lemma sint_nonneg_iff: "(0 \<le>s (x :: 64 word)) = (0 \<le> sint x)"
  by (simp add: word_sle_eq)

lemma sdiv_nonneg: "0 \<le> a \<Longrightarrow> 0 < b \<Longrightarrow> (a::int) sdiv b = a div b"
  by (simp add: signed_divide_int_def sgn_if)

lemma sint_Milliseconds_nonneg:
  assumes "0 \<le> sint d"
  shows "sint (Milliseconds d) = sint d div 1000000"
proof -
  have "sint d div 1000000 \<le> sint d div 1"
    using assms by (intro zdiv_mono2) simp_all
  then have "sint d div 1000000 \<le> sint d" by simp
  moreover have "0 \<le> sint d div 1000000" using assms by simp
  ultimately show ?thesis
    using sint_range64 [of d]
    by (simp add: Milliseconds_def godiv_def sdiv_nonneg assms sint_word_of_int_range)
qed

lemma godiv_10_nonneg:
  assumes "0 \<le> sint ms"
  shows "godiv ms 10 = word_of_int (sint ms div 10)"
  using assms by (simp add: godiv_def sdiv_nonneg)

subsection \<open>Rounding to binary64\<close>











subsection \<open>Percentiles\<close>

















subsection \<open>Latency histogram\<close>

lemma histogram_bucket_code:
  assumes "0 \<le>s latency"
  shows "godiv (Milliseconds latency) 10 = histogram_bucket latency"
proof -
  have nn: "0 \<le> sint latency" using assms by (simp add: word_sle_eq)
  have ms: "sint (Milliseconds latency) = sint latency div 1000000"
    by (rule sint_Milliseconds_nonneg [OF nn])
  have "0 \<le> sint (Milliseconds latency)" using nn by (simp add: ms)
  then have "godiv (Milliseconds latency) 10 = word_of_int (sint (Milliseconds latency) div 10)"
    by (rule godiv_10_nonneg)
  moreover have "\<lfloor>real_of_int (sint (Milliseconds latency)) / 10\<rfloor> = sint (Milliseconds latency) div 10"
    using floor_divide_of_int_eq [of "sint (Milliseconds latency)" 10, where ?'a = real] by simp
  ultimately show ?thesis by (simp add: histogram_bucket_def)
qed

lemma histogram_bucket_interval:
  assumes "0 \<le>s latency"
  shows "sint (histogram_bucket latency) * 10000000 \<le> sint latency
       \<and> sint latency < (sint (histogram_bucket latency) + 1) * 10000000"
proof -
  have nn: "0 \<le> sint latency" using assms by (simp add: word_sle_eq)
  have ms: "sint (Milliseconds latency) = sint latency div 1000000"
    by (rule sint_Milliseconds_nonneg [OF nn])
  have fl: "\<lfloor>real_of_int (sint (Milliseconds latency)) / 10\<rfloor> = sint (Milliseconds latency) div 10"
    using floor_divide_of_int_eq [of "sint (Milliseconds latency)" 10, where ?'a = real] by simp
  have k: "sint latency div 1000000 div 10 = sint latency div 10000000"
    by (simp add: zdiv_zmult2_eq [symmetric])
  have k0: "0 \<le> sint latency div 10000000" using nn by simp
  have "sint latency div 10000000 \<le> sint latency div 1"
    using nn by (intro zdiv_mono2) simp_all
  then have k1: "sint latency div 10000000 < 2 ^ 63"
    using sint_range64 [of latency] by simp
  have fl': "\<lfloor>real_of_int (sint latency div 1000000) / 10\<rfloor> = sint latency div 1000000 div 10"
    using fl by (simp only: ms)
  have "histogram_bucket latency = word_of_int (sint latency div 10000000)"
    by (simp only: histogram_bucket_def ms fl' k)
  then have b: "sint (histogram_bucket latency) = sint latency div 10000000"
    using k0 k1 by (simp add: sint_word_of_int_range)
  show ?thesis
    unfolding b by (simp add: algebra_simps) presburger
qed

lemma createHistogram_foldl: "createHistogram xs = foldl hist_step Map.empty xs"
  by (simp add: createHistogram_def hist_step_def [abs_def] Let_def)

lemma foldl_hist_lookup:
  "foldl hist_step h xs b =
     (if length (filter (\<lambda>x. godiv (Milliseconds x) 10 = b) xs) = 0 then h b
      else Some ((case h b of None \<Rightarrow> 0 | Some c \<Rightarrow> c)
                 + of_nat (length (filter (\<lambda>x. godiv (Milliseconds x) 10 = b) xs))))"
proof (induction xs arbitrary: h)
  case Nil
  then show ?case by simp
next
  case (Cons x xs)
  have ap: "hist_step h x b =
      (if godiv (Milliseconds x) 10 = b then Some ((case h b of None \<Rightarrow> 0 | Some c \<Rightarrow> c) + 1)
       else h b)"
    by (auto simp: hist_step_def map_incr_def)
  have "foldl hist_step h (x # xs) b = foldl hist_step (hist_step h x) xs b"
    by simp
  also have "\<dots> = (if length (filter (\<lambda>x. godiv (Milliseconds x) 10 = b) xs) = 0
        then hist_step h x b
        else Some ((case hist_step h x b of None \<Rightarrow> 0 | Some c \<Rightarrow> c)
                 + of_nat (length (filter (\<lambda>x. godiv (Milliseconds x) 10 = b) xs))))"
    by (rule Cons.IH)
  also have "\<dots> = (if length (filter (\<lambda>x. godiv (Milliseconds x) 10 = b) (x # xs)) = 0 then h b
      else Some ((case h b of None \<Rightarrow> 0 | Some c \<Rightarrow> c)
                 + of_nat (length (filter (\<lambda>x. godiv (Milliseconds x) 10 = b) (x # xs)))))"
    by (simp add: ap add.assoc add.commute)
  finally show ?case .
qed

lemma sum_map_incr:
  assumes "finite (dom h)"
  shows "(\<Sum>b \<in> dom (map_incr h k). the (map_incr h k b)) = (\<Sum>b \<in> dom h. the (h b)) + 1"
proof (cases "h k")
  case None
  then have nk: "k \<notin> dom h" by (simp add: domIff)
  have d: "dom (map_incr h k) = insert k (dom h)" by (simp add: map_incr_def)
  have "(\<Sum>b \<in> insert k (dom h). the (map_incr h k b))
      = the (map_incr h k k) + (\<Sum>b \<in> dom h. the (map_incr h k b))"
    using assms nk by (rule sum.insert)
  moreover have "(\<Sum>b \<in> dom h. the (map_incr h k b)) = (\<Sum>b \<in> dom h. the (h b))"
    using nk by (intro sum.cong) (auto simp: map_incr_def)
  ultimately show ?thesis using None by (simp add: d map_incr_def)
next
  case (Some c)
  then have ik: "k \<in> dom h" by (simp add: domIff)
  have d: "dom (map_incr h k) = dom h" using ik by (auto simp: map_incr_def)
  have "(\<Sum>b \<in> dom h. the (map_incr h k b))
      = the (map_incr h k k) + (\<Sum>b \<in> dom h - {k}. the (map_incr h k b))"
    using assms ik by (rule sum.remove)
  moreover have "(\<Sum>b \<in> dom h. the (h b)) = the (h k) + (\<Sum>b \<in> dom h - {k}. the (h b))"
    using assms ik by (rule sum.remove)
  moreover have "(\<Sum>b \<in> dom h - {k}. the (map_incr h k b)) = (\<Sum>b \<in> dom h - {k}. the (h b))"
    by (intro sum.cong) (auto simp: map_incr_def)
  ultimately show ?thesis using Some ik by (simp add: map_incr_def insert_absorb)
qed

lemma foldl_hist_sum:
  "finite (dom h) \<Longrightarrow>
   finite (dom (foldl hist_step h xs))
   \<and> (\<Sum>b \<in> dom (foldl hist_step h xs). the (foldl hist_step h xs b))
       = (\<Sum>b \<in> dom h. the (h b)) + of_nat (length xs)"
proof (induction xs arbitrary: h)
  case Nil
  then show ?case by simp
next
  case (Cons x xs)
  have fin: "finite (dom (hist_step h x))"
    using Cons.prems by (simp add: hist_step_def map_incr_def)
  have s: "(\<Sum>b \<in> dom (hist_step h x). the (hist_step h x b)) = (\<Sum>b \<in> dom h. the (h b)) + 1"
    unfolding hist_step_def by (rule sum_map_incr [OF Cons.prems])
  show ?case
    using Cons.IH [OF fin] by (simp add: s add.assoc add.commute)
qed

lemma Calculate_loop_latencies:
  "fst (Calculate_loop ts (latencies, totalLatency, totalBytes, stats)) = latencies @ map Total ts"
  by (induction ts arbitrary: latencies totalLatency totalBytes stats) (simp_all add: Let_def)

lemma Calculate_loop_TotalRequests:
  "TotalRequests (snd (snd (snd (Calculate_loop ts (latencies, totalLatency, totalBytes, stats)))))
     = TotalRequests stats"
  by (induction ts arbitrary: latencies totalLatency totalBytes stats) (simp_all add: Let_def)

lemma Calculate_Histogram:
  assumes "timings c \<noteq> []"
  shows "Histogram (Calculate c) = createHistogram (sort_key sint (map Total (timings c)))"
    and "TotalRequests (Calculate c) = word_of_nat (length (timings c))"
proof -
  obtain l a b st where loop: "Calculate_loop (timings c)
      ([], 0, 0, zeroStats\<lparr>TotalRequests := word_of_nat (length (timings c))\<rparr>) = (l, a, b, st)"
    by (metis prod_cases4)
  have l: "l = map Total (timings c)"
    using Calculate_loop_latencies [of "timings c" "[]" 0 0
        "zeroStats\<lparr>TotalRequests := word_of_nat (length (timings c))\<rparr>"]
    by (simp add: loop)
  have st: "TotalRequests st = word_of_nat (length (timings c))"
    using Calculate_loop_TotalRequests [of "timings c" "[]" 0 0
        "zeroStats\<lparr>TotalRequests := word_of_nat (length (timings c))\<rparr>"]
    by (simp add: loop)
  show "Histogram (Calculate c) = createHistogram (sort_key sint (map Total (timings c)))"
    using assms by (simp add: Calculate_def loop Let_def l)
  show "TotalRequests (Calculate c) = word_of_nat (length (timings c))"
    using assms by (simp add: Calculate_def loop Let_def st)
qed

lemma filter_sort_key_length:
  "length (filter P (sort_key f xs)) = length (filter P xs)"
proof -
  have "size (filter_mset P (mset (sort_key f xs))) = size (filter_mset P (mset xs))"
    by simp
  then show ?thesis
    by (simp only: mset_filter [symmetric] size_mset)
qed

text \<open>
  C9. For a non-empty set of samples with non-negative latencies (the data model's
  invariant), the histogram of \<open>Calculate\<close> holds, for every bucket, the number of
  samples whose bucket is \<open>floor(latency_ms / 10)\<close>, a bucket with no sample being absent;
  bucket \<open>k\<close> is the range from \<open>10 k\<close> ms (included) to \<open>10 (k + 1)\<close> ms (excluded),
  with no upper end to the buckets; and the counts add up to \<open>TotalRequests\<close>, the number
  of samples.
\<close>

theorem Calculate_histogram_buckets:
  assumes "timings c \<noteq> []" and "\<forall>t \<in> set (timings c). 0 \<le>s Total t"
  shows "Histogram (Calculate c) b
           = (if bucket_count b (timings c) = 0 then None
              else Some (word_of_nat (bucket_count b (timings c))))
       \<and> (\<forall>t \<in> set (timings c).
             sint (histogram_bucket (Total t)) * 10000000 \<le> sint (Total t)
           \<and> sint (Total t) < (sint (histogram_bucket (Total t)) + 1) * 10000000)
       \<and> (\<Sum>k \<in> dom (Histogram (Calculate c)). the (Histogram (Calculate c) k))
           = TotalRequests (Calculate c)
       \<and> TotalRequests (Calculate c) = word_of_nat (length (timings c))"
proof -
  let ?xs = "sort_key sint (map Total (timings c))"
  have h: "Histogram (Calculate c) = foldl hist_step Map.empty ?xs"
    using Calculate_Histogram(1) [OF assms(1)] by (simp add: createHistogram_foldl)
  have tr: "TotalRequests (Calculate c) = word_of_nat (length (timings c))"
    by (rule Calculate_Histogram(2) [OF assms(1)])
  have cnt: "length (filter (\<lambda>x. godiv (Milliseconds x) 10 = b) ?xs) = bucket_count b (timings c)"
  proof -
    have "length (filter (\<lambda>x. godiv (Milliseconds x) 10 = b) ?xs)
        = length (filter (\<lambda>x. godiv (Milliseconds x) 10 = b) (map Total (timings c)))"
      by (rule filter_sort_key_length)
    also have "\<dots> = length (filter (\<lambda>t. godiv (Milliseconds (Total t)) 10 = b) (timings c))"
      by (simp add: filter_map comp_def)
    also have "filter (\<lambda>t. godiv (Milliseconds (Total t)) 10 = b) (timings c)
        = filter (\<lambda>t. histogram_bucket (Total t) = b) (timings c)"
      using assms(2) by (intro filter_cong refl) (simp add: histogram_bucket_code)
    finally show ?thesis by (simp add: bucket_count_def)
  qed
  have a: "Histogram (Calculate c) b
           = (if bucket_count b (timings c) = 0 then None
              else Some (word_of_nat (bucket_count b (timings c))))"
    unfolding h foldl_hist_lookup cnt by simp
  have b: "\<forall>t \<in> set (timings c).
             sint (histogram_bucket (Total t)) * 10000000 \<le> sint (Total t)
           \<and> sint (Total t) < (sint (histogram_bucket (Total t)) + 1) * 10000000"
    using assms(2) histogram_bucket_interval by blast
  have "(\<Sum>k \<in> dom (foldl hist_step Map.empty ?xs). the (foldl hist_step Map.empty ?xs k))
      = (\<Sum>k \<in> dom (Map.empty :: goint \<rightharpoonup> goint). the (Map.empty k)) + of_nat (length ?xs)"
    using foldl_hist_sum [of Map.empty ?xs] by simp
  then have s: "(\<Sum>k \<in> dom (Histogram (Calculate c)). the (Histogram (Calculate c) k))
      = TotalRequests (Calculate c)"
    by (simp add: h tr)
  show ?thesis using a b s tr by blast
qed

theorem Calculate_histogram_buckets_witness:
  "timings five_samples \<noteq> []
   \<and> list_all (\<lambda>t. 0 \<le>s Total t) (timings five_samples)
   \<and> Histogram (Calculate five_samples) 0 = Some 1
   \<and> Histogram (Calculate five_samples) 1 = Some 1
   \<and> Histogram (Calculate five_samples) 2 = Some 1
   \<and> Histogram (Calculate five_samples) 9 = Some 1
   \<and> Histogram (Calculate five_samples) 10 = Some 1
   \<and> Histogram (Calculate five_samples) 3 = None
   \<and> (\<Sum>k \<in> dom (Histogram (Calculate five_samples)). the (Histogram (Calculate five_samples) k)) = 5
   \<and> TotalRequests (Calculate five_samples) = 5"
proof -
  have ne: "timings five_samples \<noteq> []" by (simp add: five_samples_def)
  have nn: "\<forall>t \<in> set (timings five_samples). 0 \<le>s Total t"
    by (simp add: five_samples_def sample_ms_def Millisecond_def word_sle_eq)
  have bc: "bucket_count 0 (timings five_samples) = 1" "bucket_count 1 (timings five_samples) = 1"
    "bucket_count 2 (timings five_samples) = 1" "bucket_count 9 (timings five_samples) = 1"
    "bucket_count 10 (timings five_samples) = 1" "bucket_count 3 (timings five_samples) = 0"
    by (simp_all add: bucket_count_def five_samples_def histogram_bucket_def sample_ms_def
        Millisecond_def Milliseconds_def godiv_def signed_divide_int_def)
  have len: "length (timings five_samples) = 5" by (simp add: five_samples_def)
  show ?thesis
    using Calculate_histogram_buckets [OF ne nn, of 0] Calculate_histogram_buckets [OF ne nn, of 1]
      Calculate_histogram_buckets [OF ne nn, of 2] Calculate_histogram_buckets [OF ne nn, of 9]
      Calculate_histogram_buckets [OF ne nn, of 10] Calculate_histogram_buckets [OF ne nn, of 3]
    by (simp add: bc len nn ne list_all_iff)
qed

section \<open>Properties of the concurrent load generator\<close>

subsection \<open>Samples and outstanding jobs\<close>

lemma samples_mset_mset: "samples_mset a w (mset js) = mset (samples_of a w js)"
  by (induction js) (simp_all add: samples_mset_def samples_of_def List.map_filter_simps split: option.splits)

lemma samples_mset_add: "samples_mset a w (A + B) = samples_mset a w A + samples_mset a w B"
  by (simp add: samples_mset_def)

lemma samples_mset_single:
  "samples_mset a w {#j#} = (case captured a w j of None \<Rightarrow> {#} | Some t \<Rightarrow> {#t#})"
  by (simp add: samples_mset_def split: option.splits)

lemma busy_jobs_append: "busy_jobs (xs @ ys) = busy_jobs xs @ busy_jobs ys"
  by (induction xs rule: busy_jobs.induct) simp_all

lemma busy_jobs_Cons: "busy_jobs (x # xs) = busy_jobs [x] @ busy_jobs xs"
  by (cases x) simp_all

lemma busy_jobs_split:
  "mset (busy_jobs (xs @ y # zs))
     = mset (busy_jobs xs) + mset (busy_jobs [y]) + mset (busy_jobs zs)"
  by (simp add: busy_jobs_append busy_jobs_Cons [of y zs])

lemma busy_jobs_update:
  assumes "i < length ws"
  shows "mset (busy_jobs (ws[i := x])) + mset (busy_jobs [ws ! i])
       = mset (busy_jobs ws) + mset (busy_jobs [x])"
proof -
  have "mset (busy_jobs ws) = mset (busy_jobs (take i ws @ ws ! i # drop (Suc i) ws))"
    using assms by (simp add: id_take_nth_drop [symmetric])
  then have a: "mset (busy_jobs ws) = mset (busy_jobs (take i ws)) + mset (busy_jobs [ws ! i])
      + mset (busy_jobs (drop (Suc i) ws))"
    by (simp only: busy_jobs_split)
  have "mset (busy_jobs (ws[i := x])) = mset (busy_jobs (take i ws @ x # drop (Suc i) ws))"
    using assms by (simp add: upd_conv_take_nth_drop)
  then have b: "mset (busy_jobs (ws[i := x])) = mset (busy_jobs (take i ws)) + mset (busy_jobs [x])
      + mset (busy_jobs (drop (Suc i) ws))"
    by (simp only: busy_jobs_split)
  show ?thesis by (simp add: a b)
qed

lemma busy_jobs_all_Exited: "list_all (\<lambda>x. x = Exited) ws \<Longrightarrow> busy_jobs ws = []"
  by (induction ws) simp_all

lemma busy_jobs_replicate_Idle: "busy_jobs (replicate n Idle) = []"
  by (induction n) simp_all

subsection \<open>Every step keeps the invariants\<close>

lemma main_step_account:
  assumes "main_step w s = Some s'"
  shows "account a w s' = account a w s" and "length (workers s') = length (workers s)"
  using assms
  by (auto simp: main_step_def account_def outstanding_def Finalize_def Let_def
      split: main_pc.splits list.splits if_splits)

lemma main_step_settled:
  assumes "main_step w s = Some s'" and "settled s"
  shows "settled s'"
  using assms
  by (auto simp: main_step_def settled_def Let_def split: main_pc.splits list.splits if_splits)

lemma worker_step_account:
  assumes "worker_step a w i s = Some s'"
  shows "account a w s' = account a w s" and "length (workers s') = length (workers s)"
proof -
  have i: "i < length (workers s)"
    using assms by (simp add: worker_step_def split: if_splits)
  show "length (workers s') = length (workers s)"
    using assms by (auto simp: worker_step_def split: if_splits worker.splits list.splits)
  show "account a w s' = account a w s"
  proof (cases "workers s ! i")
    case Idle
    show ?thesis
    proof (cases "jobs s")
      case Nil
      then have s': "s' = s\<lparr>workers := (workers s)[i := Exited]\<rparr>"
        using assms Idle i by (simp add: worker_step_def split: if_splits)
      show ?thesis
        using busy_jobs_update [OF i, of Exited] Idle
        by (simp add: s' account_def outstanding_def)
    next
      case (Cons j rest)
      then have s': "s' = s\<lparr>jobs := rest, workers := (workers s)[i := Busy j]\<rparr>"
        using assms Idle i by (simp add: worker_step_def)
      show ?thesis
        using busy_jobs_update [OF i, of "Busy j"] Idle Cons
        by (simp add: s' account_def outstanding_def)
    qed
  next
    case (Busy j)
    then have s': "s' = s\<lparr>coll := worker_body a w j (coll s), workers := (workers s)[i := Idle]\<rparr>"
      using assms i by (simp add: worker_step_def)
    have b: "mset (busy_jobs (workers s)) = mset (busy_jobs ((workers s)[i := Idle])) + {#j#}"
      using busy_jobs_update [OF i, of Idle] Busy by simp
    have c: "mset (timings (worker_body a w j (coll s)))
        = mset (timings (coll s)) + samples_mset a w {#j#}"
      by (simp add: worker_body_def captured_def [symmetric] samples_mset_single Record_def
          split: option.splits)
    have o: "outstanding s = {#j#} + outstanding s'"
      by (simp add: s' outstanding_def b)
    have o': "samples_mset a w (outstanding s)
        = samples_mset a w {#j#} + samples_mset a w (outstanding s')"
      unfolding o by (rule samples_mset_add)
    have t: "mset (timings (coll s')) = mset (timings (coll s)) + samples_mset a w {#j#}"
      by (simp add: s' c)
    show ?thesis
      unfolding account_def t o' by (simp only: ac_simps)
  next
    case Exited
    then show ?thesis using assms i by (simp add: worker_step_def)
  qed
qed

lemma worker_step_settled:
  assumes "worker_step a w i s = Some s'" and "settled s"
  shows "settled s'"
proof -
  have i: "i < length (workers s)"
    using assms by (simp add: worker_step_def split: if_splits)
  have sub: "set ((workers s)[i := x]) \<subseteq> insert x (set (workers s))" for x
    by (rule set_update_subset_insert)
  have notall: "workers s ! i \<noteq> Exited \<Longrightarrow> \<not> list_all (\<lambda>x. x = Exited) (workers s)"
    using i by (auto simp: list_all_length)
  show ?thesis
  proof (cases "workers s ! i")
    case Idle
    show ?thesis
    proof (cases "jobs s")
      case Nil
      then have s': "s' = s\<lparr>workers := (workers s)[i := Exited]\<rparr>" and cl: "jobs_closed s"
        using assms Idle i by (simp_all add: worker_step_def split: if_splits)
      show ?thesis
        using assms(2) notall Idle Nil cl by (auto simp: s' settled_def)
    next
      case (Cons j rest)
      then have s': "s' = s\<lparr>jobs := rest, workers := (workers s)[i := Busy j]\<rparr>"
        using assms Idle i by (simp add: worker_step_def)
      show ?thesis
        using assms(2) notall Idle Cons sub [of "Busy j"] by (auto simp: s' settled_def)
    qed
  next
    case (Busy j)
    then have s': "s' = s\<lparr>coll := worker_body a w j (coll s), workers := (workers s)[i := Idle]\<rparr>"
      using assms i by (simp add: worker_step_def)
    show ?thesis
      using assms(2) notall Busy sub [of Idle] by (auto simp: s' settled_def)
  next
    case Exited
    then show ?thesis using assms i by (simp add: worker_step_def)
  qed
qed

lemma handoff_step_account:
  assumes "handoff_step i s = Some s'"
  shows "account a w s' = account a w s" and "length (workers s') = length (workers s)"
proof -
  obtain j js where p: "pc s = Sending (j # js)" and i: "i < length (workers s)"
    and idle: "workers s ! i = Idle"
    and s': "s' = s\<lparr>workers := (workers s)[i := Busy j], pc := Sending js\<rparr>"
    using assms
    by (auto simp: handoff_step_def split: main_pc.splits list.splits if_splits)
  show "length (workers s') = length (workers s)" by (simp add: s')
  show "account a w s' = account a w s"
    using busy_jobs_update [OF i, of "Busy j"] idle p
    by (simp add: s' account_def outstanding_def)
qed

lemma handoff_step_settled:
  assumes "handoff_step i s = Some s'" and "settled s"
  shows "settled s'"
proof -
  obtain j js where p: "pc s = Sending (j # js)" and i: "i < length (workers s)"
    and s': "s' = s\<lparr>workers := (workers s)[i := Busy j], pc := Sending js\<rparr>"
    using assms(1)
    by (auto simp: handoff_step_def split: main_pc.splits list.splits if_splits)
  have open_chan: "\<not> jobs_closed s" and none: "Exited \<notin> set (workers s)"
    using assms(2) p by (auto simp: settled_def)
  have "set ((workers s)[i := Busy j]) \<subseteq> insert (Busy j) (set (workers s))"
    by (rule set_update_subset_insert)
  then have "Exited \<notin> set ((workers s)[i := Busy j])"
    using none by auto
  then show ?thesis
    using open_chan by (simp add: s' settled_def)
qed

lemma exec_invariants:
  assumes "exec a w sched s = Some s'" and "settled s"
  shows "account a w s' = account a w s \<and> length (workers s') = length (workers s) \<and> settled s'"
  using assms
proof (induction sched arbitrary: s)
  case Nil
  then show ?case by simp
next
  case (Cons e es)
  from Cons.prems(1) obtain s1 where s1: "step a w e s = Some s1" and rest: "exec a w es s1 = Some s'"
    by (auto split: option.splits)
  have one: "account a w s1 = account a w s \<and> length (workers s1) = length (workers s) \<and> settled s1"
  proof (cases e)
    case MainStep
    then show ?thesis
      using s1 main_step_account(1) [of w s s1 a] main_step_account(2) [of w s s1]
        main_step_settled [of w s s1] Cons.prems(2) by simp
  next
    case (WorkerStep i)
    then show ?thesis
      using s1 worker_step_account(1) [of a w i s s1] worker_step_account(2) [of a w i s s1]
        worker_step_settled [of a w i s s1] Cons.prems(2)
      by simp
  next
    case (Handoff i)
    then show ?thesis
      using s1 handoff_step_account(1) [of i s s1 a w] handoff_step_account(2) [of i s s1]
        handoff_step_settled [of i s s1] Cons.prems(2)
      by simp
  qed
  show ?case
    using Cons.IH [OF rest] one by simp
qed

subsection \<open>The start of a run\<close>

lemma runLoad_start_state:
  assumes "runLoad_start a = Inr s0"
  shows "jobs s0 = []" and "jobs_closed s0 = False"
    and "workers s0 = replicate (nat (sint (Concurrency (config a)))) Idle"
    and "pc s0 = Sending (all_jobs (config a))" and "coll s0 = collector a"
    and "stats_out s0 = None"
    and "jobs_cap s0 = nat (sint (Requests (config a) * word_of_nat (length (URLs (config a)))))"
  using assms by (auto simp: runLoad_start_def Let_def split: if_splits)

lemma runLoad_start_invariants:
  assumes "runLoad_start a = Inr s0"
  shows "settled s0"
    and "account a w s0 = mset (timings (collector a)) + mset (samples_of a w (all_jobs (config a)))"
  using runLoad_start_state [OF assms]
  by (simp_all add: settled_def account_def outstanding_def busy_jobs_replicate_Idle
      samples_mset_mset)

lemma length_concat_replicate: "length (concat (map (replicate r) us)) = r * length us"
  by (induction us) simp_all

lemma length_all_jobs:
  "length (all_jobs cfg) = nat (sint (Requests cfg)) * length (URLs cfg)"
  by (simp add: all_jobs_def length_concat_replicate)

lemma sint_total_requests:
  fixes R :: goint
  assumes "0 \<le> sint R" and "sint R * int n < 2 ^ 63"
  shows "sint (R * word_of_nat n) = sint R * int n"
proof -
  have e: "R * word_of_nat n = word_of_int (sint R * int n)"
    by simp
  have "0 \<le> sint R * int n"
    using assms(1) by (simp add: mult_nonneg_nonneg)
  then have "- (2 ^ 63) \<le> sint R * int n"
    by (rule order_trans [rotated]) simp
  then have "sint (word_of_int (sint R * int n) :: goint) = sint R * int n"
    using assms(2) by (rule sint_word_of_int_range)
  then show ?thesis by (simp only: e)
qed

lemma runLoad_start_fits:
  assumes "URLs (config a) \<noteq> []" and "0 \<le>s Requests (config a)"
    and "sint (Requests (config a)) * int (length (URLs (config a))) < 2 ^ 63"
  shows "\<exists>s0. runLoad_start a = Inr s0 \<and> jobs_cap s0 = length (all_jobs (config a))"
proof -
  have r0: "0 \<le> sint (Requests (config a))" using assms(2) by (simp add: word_sle_eq)
  have t: "sint (Requests (config a) * word_of_nat (length (URLs (config a))))
      = sint (Requests (config a)) * int (length (URLs (config a)))"
    by (rule sint_total_requests [OF r0 assms(3)])
  have nn: "\<not> Requests (config a) * word_of_nat (length (URLs (config a))) <s 0"
    using r0 by (simp add: word_sless_alt t not_less mult_nonneg_nonneg)
  have "nat (sint (Requests (config a)) * int (length (URLs (config a))))
      = nat (sint (Requests (config a))) * length (URLs (config a))"
    using r0 by (simp add: nat_mult_distrib)
  then show ?thesis
    using assms(1) nn by (simp add: runLoad_start_def Let_def t length_all_jobs)
qed

subsection \<open>Timing capture and the worker body\<close>

lemma captured_Some_iff: "(captured a w j \<noteq> None) = (newRequestError (net w j) = None)"
  by (simp add: captured_def MeasureRequest_def Let_def split: option.splits)

lemma length_samples_of:
  "length (samples_of a w js) = length (filter (\<lambda>j. newRequestError (net w j) = None) js)"
proof -
  have "(\<lambda>j. captured a w j \<noteq> None) = (\<lambda>j. newRequestError (net w j) = None)"
    by (rule ext) (rule captured_Some_iff)
  then show ?thesis
    by (simp only: samples_of_def List.map_filter_def length_map)
qed

lemma MeasureRequest_transport_error:
  assumes "newRequestError ex = None" and "doError ex = Some e"
  shows "MeasureRequest cfg ex = (Some ((Timing (traced ex))\<lparr>Error := e\<rparr>), Some e)"
  using assms by (simp add: MeasureRequest_def)

lemma MeasureRequest_no_request:
  assumes "newRequestError ex = Some e"
  shows "MeasureRequest cfg ex = (None, Some e)"
  using assms by (simp add: MeasureRequest_def)

lemma worker_step_Busy:
  assumes "i < length (workers s)" and "workers s ! i = Busy j"
  shows "worker_step a w i s
     = Some (s\<lparr>coll := (case captured a w j of Some t \<Rightarrow> Record (coll s) t | None \<Rightarrow> coll s),
              workers := (workers s)[i := Idle]\<rparr>)"
  using assms by (simp add: worker_step_def worker_body_def captured_def)

subsection \<open>Schedules that complete\<close>

lemma exec_append:
  "exec a w (xs @ ys) s = (case exec a w xs s of None \<Rightarrow> None | Some s' \<Rightarrow> exec a w ys s')"
  by (induction xs arbitrary: s) (simp_all split: option.splits)

lemma main_sends:
  "pc s = Sending js \<Longrightarrow> length (jobs s) + length js \<le> jobs_cap s \<Longrightarrow>
   exec a w (replicate (length js) MainStep) s = Some (s\<lparr>jobs := jobs s @ js, pc := Sending []\<rparr>)"
proof (induction js arbitrary: s)
  case Nil
  then show ?case by simp
next
  case (Cons j js)
  define s1 where "s1 = s\<lparr>jobs := jobs s @ [j], pc := Sending js\<rparr>"
  have st: "main_step w s = Some s1"
    using Cons.prems by (simp add: main_step_def s1_def)
  have "exec a w (replicate (length js) MainStep) s1
      = Some (s1\<lparr>jobs := jobs s1 @ js, pc := Sending []\<rparr>)"
    using Cons.prems by (intro Cons.IH) (simp_all add: s1_def)
  then show ?case
    by (simp add: st s1_def)
qed





lemma worker_drains:
  "jobs s = js \<Longrightarrow> workers s \<noteq> [] \<Longrightarrow> workers s ! 0 = Idle \<Longrightarrow>
   exec a w (concat (map (\<lambda>j. [WorkerStep 0, WorkerStep 0]) js)) s
     = Some (s\<lparr>jobs := [], coll := foldl (\<lambda>c j. worker_body a w j c) (coll s) js\<rparr>)"
proof (induction js arbitrary: s)
  case Nil
  then show ?case by simp
next
  case (Cons j js)
  have len: "0 < length (workers s)" using Cons.prems(2) by simp
  define s1 where "s1 = s\<lparr>jobs := js, workers := (workers s)[0 := Busy j]\<rparr>"
  define s2 where "s2 = s\<lparr>jobs := js, coll := worker_body a w j (coll s)\<rparr>"
  have t1: "worker_step a w 0 s = Some s1"
    using Cons.prems len by (simp add: worker_step_def s1_def)
  have "((workers s)[0 := Busy j])[0 := Idle] = workers s"
    using Cons.prems(3) len by (simp add: list_update_same_conv)
  then have t2: "worker_step a w 0 s1 = Some s2"
    using len by (simp add: worker_step_def s1_def s2_def)
  have "exec a w (concat (map (\<lambda>j. [WorkerStep 0, WorkerStep 0]) js)) s2
     = Some (s2\<lparr>jobs := [], coll := foldl (\<lambda>c j. worker_body a w j c) (coll s2) js\<rparr>)"
    using Cons.prems by (intro Cons.IH) (simp_all add: s2_def)
  then show ?case
    by (simp add: t1 t2 s2_def)
qed

lemma workers_exit:
  "jobs s = [] \<Longrightarrow> jobs_closed s \<Longrightarrow> workers s = replicate k Exited @ replicate m Idle \<Longrightarrow>
   exec a w (map WorkerStep [k..<k + m]) s = Some (s\<lparr>workers := replicate (k + m) Exited\<rparr>)"
proof (induction m arbitrary: k s)
  case 0
  then show ?case by simp
next
  case (Suc m)
  define s1 where "s1 = s\<lparr>workers := (workers s)[k := Exited]\<rparr>"
  have nth: "workers s ! k = Idle" and len: "k < length (workers s)"
    using Suc.prems(3) by (simp_all add: nth_append)
  have t1: "worker_step a w k s = Some s1"
    using Suc.prems(1,2) nth len by (simp add: worker_step_def s1_def)
  have w1: "workers s1 = replicate (Suc k) Exited @ replicate m Idle"
    using Suc.prems(3) by (simp add: s1_def list_update_append replicate_append_same)
  have "exec a w (map WorkerStep [Suc k..<Suc k + m]) s1
      = Some (s1\<lparr>workers := replicate (Suc k + m) Exited\<rparr>)"
    using Suc.prems(1,2) w1 by (intro Suc.IH) (simp_all add: s1_def)
  moreover have "[k..<k + Suc m] = k # [Suc k..<Suc k + m]"
    by (simp add: upt_conv_Cons)
  ultimately show ?case
    by (simp add: t1 s1_def)
qed

text \<open>
  With at least one worker a run can always complete: the main goroutine sends every job and
  closes the channel, the first worker processes the jobs one after the other, the workers
  exit, and the main goroutine returns.
\<close>

lemma runLoad_completes:
  assumes "URLs (config a) \<noteq> []" and "0 \<le>s Requests (config a)"
    and "sint (Requests (config a)) * int (length (URLs (config a))) < 2 ^ 63"
    and "0 <s Concurrency (config a)"
  shows "\<exists>sched s0 s r. runLoad_start a = Inr s0 \<and> exec a w sched s0 = Some s
           \<and> pc s = Returned r"
proof -
  obtain s0 where s0: "runLoad_start a = Inr s0" and cap: "jobs_cap s0 = length (all_jobs (config a))"
    using runLoad_start_fits [OF assms(1,2,3)] by blast
  note st = runLoad_start_state [OF s0]
  define W where "W = nat (sint (Concurrency (config a)))"
  have Wpos: "0 < W" using assms(4) by (simp add: W_def word_sless_alt)
  define all where "all = all_jobs (config a)"
  define s1 where "s1 = s0\<lparr>jobs := all, pc := Sending []\<rparr>"
  define s2 where "s2 = s1\<lparr>jobs_closed := True, pc := Waiting\<rparr>"
  define s3 where "s3 = s2\<lparr>jobs := [], coll := foldl (\<lambda>c j. worker_body a w j c) (coll s2) all\<rparr>"
  define s4 where "s4 = s3\<lparr>workers := replicate W Exited\<rparr>"
  have e1: "exec a w (replicate (length all) MainStep) s0 = Some s1"
    using main_sends [of s0 all a w] st(1,4) cap by (simp add: all_def s1_def)
  have e2: "exec a w [MainStep] s1 = Some s2"
    by (simp add: main_step_def s1_def s2_def)
  have ws2: "workers s2 = replicate W Idle"
    by (simp add: s2_def s1_def st(3) W_def)
  have e3: "exec a w (concat (map (\<lambda>j. [WorkerStep 0, WorkerStep 0]) all)) s2 = Some s3"
    unfolding s3_def using Wpos ws2
    by (intro worker_drains) (simp_all add: s2_def s1_def)
  have "exec a w (map WorkerStep [0..<0 + W]) s3 = Some (s3\<lparr>workers := replicate (0 + W) Exited\<rparr>)"
  proof (rule workers_exit)
    show "jobs s3 = []" by (simp add: s3_def)
    show "jobs_closed s3" by (simp add: s3_def s2_def)
    show "workers s3 = replicate 0 Exited @ replicate W Idle"
      using ws2 by (simp add: s3_def)
  qed
  then have e4: "exec a w (map WorkerStep [0..<0 + W]) s3 = Some s4"
    by (simp add: s4_def)
  have "\<exists>s5 r. exec a w [MainStep] s4 = Some s5 \<and> pc s5 = Returned r"
    by (simp add: main_step_def s4_def s3_def s2_def s1_def Let_def list_all_length)
  then obtain s5 r where e5: "exec a w [MainStep] s4 = Some s5" and r: "pc s5 = Returned r"
    by blast
  have "exec a w (replicate (length all) MainStep @ [MainStep]
          @ concat (map (\<lambda>j. [WorkerStep 0, WorkerStep 0]) all)
          @ map WorkerStep [0..<0 + W] @ [MainStep]) s0 = Some s5"
    by (simp only: exec_append e1 e2 e3 e4 e5 option.case)
  then show ?thesis using s0 r by blast
qed

subsection \<open>The example runs\<close>

lemma example_config_simps:
  "URLs (example_config u r c) = [u]"
  "Requests (example_config u r c) = r"
  "Concurrency (example_config u r c) = c"
  by (simp_all add: example_config_def)

lemma example_jobs:
  "all_jobs (example_config u 2 c)
     = [\<lparr>job_url = u, job_id = 0\<rparr>, \<lparr>job_url = u, job_id = 1\<rparr>]"
  by (simp add: all_jobs_def example_config_simps numeral_2_eq_2 enumerate_eq_zip upt_rec)

lemma example_start:
  "runLoad_start (example_app u 2 c)
     = Inr \<lparr>jobs = [], jobs_cap = 2, jobs_closed = False,
            workers = replicate (nat (sint c)) Idle,
            pc = Sending [\<lparr>job_url = u, job_id = 0\<rparr>, \<lparr>job_url = u, job_id = 1\<rparr>],
            coll = \<lparr>timings = [], startTime = 0, endTime = 0\<rparr>, stats_out = None\<rparr>"
  by (simp add: runLoad_start_def example_app_def example_config_simps example_jobs Let_def
      NewCollector_def word_sless_alt)

lemma captured_flaky:
  "captured (example_app example_url 2 c) (example_world flaky_net)
       \<lparr>job_url = example_url, job_id = 0\<rparr>
     = Some ((Timing example_trace)\<lparr>Error := ''connection refused''\<rparr>)"
  "captured (example_app example_url 2 c) (example_world flaky_net)
       \<lparr>job_url = example_url, job_id = 1\<rparr>
     = Some ((Timing example_trace)\<lparr>StatusCode := 200, ContentLength := 2, ResponseSize := 2\<rparr>)"
  by (simp_all add: captured_def example_app_def example_world_def flaky_net_def
      MeasureRequest_def refused_exchange_def ok_exchange_def Let_def word_sle_eq)

lemma flaky_run:
  "exec (example_app example_url 2 1) (example_world flaky_net) one_worker_schedule
     \<lparr>jobs = [], jobs_cap = 2, jobs_closed = False, workers = [Idle],
      pc = Sending [\<lparr>job_url = example_url, job_id = 0\<rparr>,
                    \<lparr>job_url = example_url, job_id = 1\<rparr>],
      coll = \<lparr>timings = [], startTime = 0, endTime = 0\<rparr>, stats_out = None\<rparr>
   = Some flaky_final"
proof -
  have w: "finalize_now (example_world flaky_net) = 1000"
    "writeMultiple (example_world flaky_net) stats = None" for stats
    by (simp_all add: example_world_def)
  have b: "worker_body (example_app example_url 2 1) (example_world flaky_net) j c
      = (case captured (example_app example_url 2 1) (example_world flaky_net) j of
           Some timing \<Rightarrow> Record c timing | None \<Rightarrow> c)" for j c
    by (simp add: worker_body_def captured_def)
  show ?thesis
    unfolding one_worker_schedule_def
    by (simp add: main_step_def worker_step_def b captured_flaky Record_def Finalize_def
        Let_def flaky_final_def w)
qed

subsection \<open>Non-positive concurrency\<close>




subsection \<open>Recorded samples\<close>

text \<open>
  C4, as the specification words it, fails: the worker records the sample only if Timing
  Capture returns one, and \<open>MeasureRequest\<close> returns none when the request cannot be
  constructed. In a run of two jobs whose URL \<open>http.NewRequest\<close> rejects, the worker
  takes both jobs and the collector ends with no sample.
\<close>

theorem runLoad_malformed_request_counterexample:
  "length (all_jobs (config (example_app malformed_url 2 1))) = 2
   \<and> runLoad (example_app malformed_url 2 1) (example_world (\<lambda>j. malformed_exchange)) one_worker_schedule
     = Some (Inr \<lparr>jobs = [], jobs_cap = 2, jobs_closed = True, workers = [Exited],
                  pc = Returned None,
                  coll = \<lparr>timings = [], startTime = 0, endTime = 1000\<rparr>,
                  stats_out = Some zeroStats\<rparr>)"
proof -
  have n: "length (all_jobs (config (example_app malformed_url 2 1))) = 2"
    by (simp add: example_app_def example_jobs)
  have m: "fst (MeasureRequest cfg malformed_exchange) = None" for cfg
    by (simp add: MeasureRequest_def malformed_exchange_def)
  show ?thesis
    by (simp add: n runLoad_def example_start one_worker_schedule_def main_step_def
        worker_step_def worker_body_def m example_world_def Finalize_def Calculate_def Let_def)
qed

text \<open>
  C4, amended. In every completed run, the samples recorded, together with the samples of
  the jobs no worker took, are the collector's initial samples and the samples captured for
  all jobs; with at least one worker every job is taken, and the number of recorded samples
  is the number of jobs whose request could be constructed. A request that fails with a
  transport error yields a sample whose error field carries the error. A worker holding a
  job always finishes the loop body, appending the captured sample if there is one, and is
  back at the head of its loop: it neither stops nor discards a captured sample.
\<close>

theorem runLoad_records_every_captured_sample:
  assumes "runLoad_start a = Inr s0" and "exec a w sched s0 = Some s" and "pc s = Returned r"
  shows "mset (timings (coll s)) + mset (samples_of a w (jobs s))
           = mset (timings (collector a)) + mset (samples_of a w (all_jobs (config a)))
       \<and> (0 <s Concurrency (config a) \<longrightarrow>
            jobs s = []
          \<and> length (timings (coll s))
              = length (timings (collector a))
                + length (filter (\<lambda>j. newRequestError (net w j) = None) (all_jobs (config a))))
       \<and> (\<forall>j e. newRequestError (net w j) = None \<and> doError (net w j) = Some e \<longrightarrow>
            (\<exists>t. captured a w j = Some t \<and> Error t = e))
       \<and> (\<forall>i s1 j. i < length (workers s1) \<and> workers s1 ! i = Busy j \<longrightarrow>
            (\<exists>s2. worker_step a w i s1 = Some s2 \<and> workers s2 ! i = Idle
                 \<and> timings (coll s2)
                     = timings (coll s1) @ (case captured a w j of Some t \<Rightarrow> [t] | None \<Rightarrow> [])))"
proof -
  have inv: "account a w s = account a w s0" "length (workers s) = length (workers s0)" "settled s"
    using exec_invariants [OF assms(2) runLoad_start_invariants(1) [OF assms(1)]] by simp_all
  have allex: "list_all (\<lambda>x. x = Exited) (workers s)"
    using inv(3) assms(3) by (simp add: settled_def)
  have out: "outstanding s = mset (jobs s)"
    using assms(3) busy_jobs_all_Exited [OF allex] by (simp add: outstanding_def)
  have eq: "mset (timings (coll s)) + mset (samples_of a w (jobs s))
           = mset (timings (collector a)) + mset (samples_of a w (all_jobs (config a)))"
    using inv(1) runLoad_start_invariants(2) [OF assms(1), of w]
    by (simp add: account_def out samples_mset_mset)
  have pos: "jobs s = []
          \<and> length (timings (coll s))
              = length (timings (collector a))
                + length (filter (\<lambda>j. newRequestError (net w j) = None) (all_jobs (config a)))"
    if c: "0 <s Concurrency (config a)"
  proof -
    have "0 < sint (Concurrency (config a))" using c by (simp add: word_sless_alt)
    then have "workers s0 \<noteq> []"
      using runLoad_start_state(3) [OF assms(1)] by simp
    then have "workers s \<noteq> []" using inv(2) by auto
    then have "Exited \<in> set (workers s)"
      using allex by (cases "workers s") simp_all
    then have j: "jobs s = []" using inv(3) by (simp add: settled_def)
    have "size (mset (timings (coll s)) + mset (samples_of a w (jobs s)))
        = size (mset (timings (collector a)) + mset (samples_of a w (all_jobs (config a))))"
      by (simp only: eq)
    then show ?thesis
      by (simp add: j samples_of_def [of a w "[]"] List.map_filter_simps length_samples_of)
  qed
  have te: "\<forall>j e. newRequestError (net w j) = None \<and> doError (net w j) = Some e \<longrightarrow>
            (\<exists>t. captured a w j = Some t \<and> Error t = e)"
    by (simp add: captured_def MeasureRequest_transport_error)
  have ws: "\<forall>i s1 j. i < length (workers s1) \<and> workers s1 ! i = Busy j \<longrightarrow>
            (\<exists>s2. worker_step a w i s1 = Some s2 \<and> workers s2 ! i = Idle
                 \<and> timings (coll s2)
                     = timings (coll s1) @ (case captured a w j of Some t \<Rightarrow> [t] | None \<Rightarrow> []))"
    by (auto simp: worker_step_Busy Record_def split: option.splits)
  show ?thesis using eq pos te ws by blast
qed

theorem runLoad_records_every_captured_sample_witness:
  "runLoad (example_app example_url 2 1) (example_world flaky_net) one_worker_schedule = Some (Inr flaky_final)
   \<and> pc flaky_final = Returned None
   \<and> 0 <s Concurrency (config (example_app example_url 2 1))
   \<and> length (all_jobs (config (example_app example_url 2 1))) = 2
   \<and> length (timings (coll flaky_final)) = 2
   \<and> map Error (timings (coll flaky_final)) = [''connection refused'', []]"
proof -
  have st: "runLoad_start (example_app example_url 2 1) = Inr \<lparr>jobs = [], jobs_cap = 2, jobs_closed = False,
      workers = [Idle],
      pc = Sending [\<lparr>job_url = example_url, job_id = 0\<rparr>,
                    \<lparr>job_url = example_url, job_id = 1\<rparr>],
      coll = \<lparr>timings = [], startTime = 0, endTime = 0\<rparr>, stats_out = None\<rparr>"
    using example_start [of example_url 1] by simp
  have fin: "pc flaky_final = Returned None" by (simp add: flaky_final_def)
  have c: "0 <s Concurrency (config (example_app example_url 2 1))"
    by (simp add: example_app_def example_config_simps word_sless_alt)
  have j: "all_jobs (config (example_app example_url 2 1))
      = [\<lparr>job_url = example_url, job_id = 0\<rparr>,
         \<lparr>job_url = example_url, job_id = 1\<rparr>]"
    by (simp add: example_app_def example_jobs)
  have t: "timings (collector (example_app example_url 2 1)) = []"
    by (simp add: example_app_def NewCollector_def)
  have n: "newRequestError (net (example_world flaky_net) x) = None" for x
    by (simp add: example_world_def flaky_net_def refused_exchange_def ok_exchange_def)
  have "length (timings (coll flaky_final)) = 2"
    using runLoad_records_every_captured_sample [OF st flaky_run fin] c
    by (simp add: j t n)
  then show ?thesis
    by (simp add: runLoad_def st flaky_run fin c j) (simp add: flaky_final_def Timing_def)
qed

end
